theory Spec2Isabelle
  imports Main "HOL-Library.Sublist"
begin

section \<open>Strings\<close>

text \<open>
  JavaScript strings are modelled as \<^typ>\<open>string\<close>. The generator only inspects the
  characters \<open>= ! < > _ / # a-z\<close> and the space; every other code unit is copied
  unchanged, so the width of a character does not matter here.
\<close>

definition nl :: string where "nl = [CHR 0x0A]"
definition tab :: string where "tab = [CHR 0x09]"
definition sq :: string where "sq = [CHR 0x27]"
definition dq :: string where "dq = [CHR 0x22]"

definition lowers :: string where "lowers = ''abcdefghijklmnopqrstuvwxyz''"
definition uppers :: string where "uppers = ''ABCDEFGHIJKLMNOPQRSTUVWXYZ''"

text \<open>The character class \<open>[a-z]\<close> of the two regular expressions.\<close>

definition is_lower :: "char \<Rightarrow> bool" where
  "is_lower c = (c \<in> set lowers)"

text \<open>\<open>toUpperCase\<close> on one character matched by \<open>[a-z]\<close>; other characters are not passed to it.\<close>

definition toUpperCase :: "char \<Rightarrow> char" where
  "toUpperCase c = (case map_of (zip lowers uppers) c of Some u \<Rightarrow> u | None \<Rightarrow> c)"

text \<open>\<open>s.split(c)\<close> for a one-character separator: never empty, \<open>''''.split(c) = ['''']\<close>.\<close>

fun split_on :: "char \<Rightarrow> string \<Rightarrow> string list" where
  "split_on c [] = [[]]"
| "split_on c (x # xs) =
     (if x = c then [] # split_on c xs
      else (case split_on c xs of [] \<Rightarrow> [[x]] | w # ws \<Rightarrow> (x # w) # ws))"

text \<open>\<open>xs.join(sep)\<close>.\<close>

fun join_with :: "string \<Rightarrow> string list \<Rightarrow> string" where
  "join_with sep [] = []"
| "join_with sep [x] = x"
| "join_with sep (x # y # ys) = x @ sep @ join_with sep (y # ys)"

text \<open>\<open>s.includes(k)\<close> on strings: \<open>k\<close> occurs in \<open>s\<close> as a contiguous run.\<close>

fun starts_with :: "string \<Rightarrow> string \<Rightarrow> bool" where
  "starts_with [] s = True"
| "starts_with (k # ks) [] = False"
| "starts_with (k # ks) (c # s) = (k = c \<and> starts_with ks s)"

fun is_substring :: "string \<Rightarrow> string \<Rightarrow> bool" where
  "is_substring k [] = (k = [])"
| "is_substring k (c # s) = (starts_with k (c # s) \<or> is_substring k s)"

definition digits :: string where "digits = ''0123456789''"

text \<open>The decimal numeral of a natural number, as \<open>String(i)\<close> prints an array index.\<close>

fun decimal :: "nat \<Rightarrow> string" where
  "decimal n = (if n < 10 then [digits ! n] else decimal (n div 10) @ [digits ! (n mod 10)])"

declare decimal.simps [simp del]

section \<open>The naming transformer\<close>

text \<open>\<open>name.replace(/c/g, r)\<close> for a single character \<open>c\<close>.\<close>

definition replaceAll :: "char \<Rightarrow> string \<Rightarrow> string \<Rightarrow> string" where
  "replaceAll c r s = concat (map (\<lambda>x. if x = c then r else [x]) s)"

text \<open>
  \<open>name.replace(/_([a-z])/g, (m) => m[1].toUpperCase())\<close>: scanning from the left, an
  underscore directly followed by a lower-case letter is replaced, together with that
  letter, by the upper-cased letter; the scan resumes after the match.
\<close>

fun replaceUnderscoreLower :: "string \<Rightarrow> string" where
  "replaceUnderscoreLower (a # b # s) =
     (if a = CHR ''_'' \<and> is_lower b then toUpperCase b # replaceUnderscoreLower s
      else a # replaceUnderscoreLower (b # s))"
| "replaceUnderscoreLower s = s"

definition snakeCaseToCamelCase :: "string \<Rightarrow> string" where
  "snakeCaseToCamelCase name =
     replaceUnderscoreLower
       (replaceAll CHR ''>'' ''Gt'' (replaceAll CHR ''<'' ''Lt''
         (replaceAll CHR ''!'' ''Not'' (replaceAll CHR ''='' ''Eq'' name))))"

text \<open>\<open>.replace(/^[a-z]/, (m) => m[0].toUpperCase())\<close> on the camel-cased name.\<close>

definition snakeCaseToSentenceCase :: "string \<Rightarrow> string" where
  "snakeCaseToSentenceCase name =
     (case snakeCaseToCamelCase name of
        [] \<Rightarrow> []
      | c # s \<Rightarrow> (if is_lower c then toUpperCase c # s else c # s))"

subsection \<open>The transformer as the specification words it\<close>

text \<open>
  The specification: replace the four comparison characters by \<open>Eq\<close>, \<open>Not\<close>, \<open>Lt\<close>,
  \<open>Gt\<close>, then remove each underscore while upper-casing the letter that follows it;
  the Pascal form additionally upper-cases the first letter.
\<close>

definition spec_substitute :: "char \<Rightarrow> string" where
  "spec_substitute c =
     (if c = CHR ''='' then ''Eq'' else if c = CHR ''!'' then ''Not''
      else if c = CHR ''<'' then ''Lt'' else if c = CHR ''>'' then ''Gt'' else [c])"

fun spec_strip :: "bool \<Rightarrow> string \<Rightarrow> string" where
  "spec_strip up [] = []"
| "spec_strip up (c # s) =
     (if c = CHR ''_'' then spec_strip True s
      else (if up then toUpperCase c else c) # spec_strip False s)"

definition spec_toCamel :: "string \<Rightarrow> string" where
  "spec_toCamel name = spec_strip False (concat (map spec_substitute name))"

definition spec_toPascal :: "string \<Rightarrow> string" where
  "spec_toPascal name =
     (case spec_toCamel name of [] \<Rightarrow> [] | c # s \<Rightarrow> toUpperCase c # s)"

text \<open>Every underscore is directly followed by a lower-case letter \<open>a-z\<close>.\<close>

fun snake_ok :: "string \<Rightarrow> bool" where
  "snake_ok [] = True"
| "snake_ok [c] = (c \<noteq> CHR ''_'')"
| "snake_ok (a # b # s) = ((a = CHR ''_'' \<longrightarrow> is_lower b) \<and> snake_ok (b # s))"

section \<open>Comment formatting\<close>

text \<open>
  The loop of \<open>formatLines\<close>: \<open>lines\<close> are the lines pushed so far, \<open>currentLine\<close> the
  line under construction.
\<close>

fun formatLines_loop :: "string list \<Rightarrow> string \<Rightarrow> string list \<Rightarrow> string list" where
  "formatLines_loop lines currentLine [] = lines @ [currentLine]"
| "formatLines_loop lines currentLine (word # words) =
     (if length currentLine + length word + 1 > 70
      then formatLines_loop (lines @ [currentLine]) word words
      else formatLines_loop lines
             ((if length currentLine > 0 then currentLine @ '' '' else currentLine) @ word)
             words)"

definition formatLines :: "string \<Rightarrow> string list" where
  "formatLines line = formatLines_loop [] [] (split_on CHR '' '' line)"

definition formatComment :: "string \<Rightarrow> string \<Rightarrow> string" where
  "formatComment leader comment =
     foldl (\<lambda>result line. result @ leader @ line @ nl) [] (formatLines comment)"

fun no_double_space :: "string \<Rightarrow> bool" where
  "no_double_space (a # b # s) =
     (\<not> (a = CHR '' '' \<and> b = CHR '' '') \<and> no_double_space (b # s))"
| "no_double_space s = True"

text \<open>The words of a line that are not empty, as \<open>split\<close> separates them.\<close>

definition words_of :: "string \<Rightarrow> string list" where
  "words_of line = filter (\<lambda>w. w \<noteq> []) (split_on CHR '' '' line)"

section \<open>JavaScript values\<close>

text \<open>
  The contracts are parsed JSON and the generator inspects them without any type check,
  so values are modelled untyped. \<open>JUndef\<close> is \<open>undefined\<close>: the value of a missing
  property. \<open>JObj\<close> holds the own properties of an object in the order \<open>Object.keys\<close>
  lists them, each key once. Numbers are integers: a contract's numbers only reach the
  generator through truthiness tests and text interpolation, where an integer that a
  double holds exactly and that has at most 21 digits prints as its decimal numeral;
  other numbers are outside the embedding.
\<close>

datatype jsval =
    JUndef
  | JNull
  | JBool bool
  | JNum int
  | JStr string
  | JArr "jsval list"
  | JObj "(string \<times> jsval) list"

text \<open>
  Exceptions. \<open>TypeError\<close> is the runtime's own error (a property read on \<open>undefined\<close>
  or \<open>null\<close>, a call of something that is not a function, an iteration over something
  that is not iterable); the others are the \<open>Error\<close>s the generator throws, with the
  text that varies in their message, and the failures of the file system, the parser and
  the formatter process. \<open>Unmodelled\<close> marks the one place where a contract would make
  the runtime coerce a value that is not a number to a number (the \<open>length\<close> of an
  object that is not an array); the embedding stops there.
\<close>

datatype error =
    TypeError
  | CouldNotFindRef string
  | UnknownType string
  | NoDescription string
  | NoProperties string
  | NoSchema string string
  | SyntaxError
  | IOError
  | FormatterFailed
  | Unmodelled

definition ebind :: "error + 'a \<Rightarrow> ('a \<Rightarrow> error + 'b) \<Rightarrow> error + 'b" where
  "ebind m f = (case m of Inl e \<Rightarrow> Inl e | Inr x \<Rightarrow> f x)"

text \<open>
  A generator body is a sequence of steps, each yielding chunks or throwing; the chunks
  of the steps before a throw are lost with the generator.
\<close>

fun seq :: "(error + 'a list) list \<Rightarrow> error + 'a list" where
  "seq [] = Inr []"
| "seq (m # ms) =
     (case m of
        Inl e \<Rightarrow> Inl e
      | Inr xs \<Rightarrow> (case seq ms of Inl e \<Rightarrow> Inl e | Inr ys \<Rightarrow> Inr (xs @ ys)))"

definition yield :: "'a \<Rightarrow> error + 'a list" where
  "yield s = Inr [s]"

definition yieldE :: "error + 'a \<Rightarrow> error + 'a list" where
  "yieldE m = (case m of Inl e \<Rightarrow> Inl e | Inr s \<Rightarrow> Inr [s])"

text \<open>The test of \<open>if (v)\<close>, \<open>!v\<close>, \<open>v ? a : b\<close>.\<close>

fun truthy :: "jsval \<Rightarrow> bool" where
  "truthy JUndef = False"
| "truthy JNull = False"
| "truthy (JBool b) = b"
| "truthy (JNum n) = (n \<noteq> 0)"
| "truthy (JStr s) = (s \<noteq> [])"
| "truthy (JArr xs) = True"
| "truthy (JObj kvs) = True"

text \<open>The text of a value inside a template literal or next to \<open>+\<close> with a string.\<close>

fun toString :: "jsval \<Rightarrow> string" where
  "toString JUndef = ''undefined''"
| "toString JNull = ''null''"
| "toString (JBool b) = (if b then ''true'' else ''false'')"
| "toString (JNum n) = (if n < 0 then ''-'' @ decimal (nat (- n)) else decimal (nat n))"
| "toString (JStr s) = s"
| "toString (JArr xs) =
     join_with '','' (map (\<lambda>x. if x = JUndef \<or> x = JNull then [] else toString x) xs)"
| "toString (JObj kvs) = ''[object Object]''"

definition lookup :: "(string \<times> jsval) list \<Rightarrow> string \<Rightarrow> jsval" where
  "lookup kvs k = (case map_of kvs k of Some v \<Rightarrow> v | None \<Rightarrow> JUndef)"

text \<open>
  \<open>v.k\<close> for the property names the generator reads by name (\<open>type\<close>, \<open>enum\<close>,
  \<open>name\<close>, \<open>items\<close>, \<open>$ref\<close>, \<open>description\<close>, \<open>properties\<close>, \<open>required\<close>,
  \<open>additionalProperties\<close>, \<open>methods\<close>, \<open>params\<close>, \<open>result\<close>, \<open>schema\<close>,
  \<open>summary\<close>, \<open>components\<close>, \<open>schemas\<close>): none of them exists on a string, a number,
  a boolean or an array.
\<close>

fun js_get :: "jsval \<Rightarrow> string \<Rightarrow> error + jsval" where
  "js_get JUndef k = Inl TypeError"
| "js_get JNull k = Inl TypeError"
| "js_get (JObj kvs) k = Inr (lookup kvs k)"
| "js_get v k = Inr JUndef"

text \<open>\<open>Object.keys(v)\<close>, each key paired with \<open>v[key]\<close>.\<close>

fun entries :: "jsval \<Rightarrow> error + (string \<times> jsval) list" where
  "entries JUndef = Inl TypeError"
| "entries JNull = Inl TypeError"
| "entries (JObj kvs) = Inr kvs"
| "entries (JArr xs) = Inr (zip (map decimal [0..<length xs]) xs)"
| "entries (JStr s) = Inr (zip (map decimal [0..<length s]) (map (\<lambda>c. JStr [c]) s))"
| "entries v = Inr []"

text \<open>\<open>for (const x of v)\<close>: arrays and strings are the iterable values of JSON.\<close>

fun iter :: "jsval \<Rightarrow> error + jsval list" where
  "iter (JArr xs) = Inr xs"
| "iter (JStr s) = Inr (map (\<lambda>c. JStr [c]) s)"
| "iter v = Inl TypeError"

text \<open>
  \<open>v.length\<close> as a number: \<open>None\<close> stands for \<open>undefined\<close>, which compares false with
  every number. An object with a \<open>length\<close> entry that is not a number is not modelled.
\<close>

fun js_length :: "jsval \<Rightarrow> error + int option" where
  "js_length JUndef = Inl TypeError"
| "js_length JNull = Inl TypeError"
| "js_length (JArr xs) = Inr (Some (int (length xs)))"
| "js_length (JStr s) = Inr (Some (int (length s)))"
| "js_length (JObj kvs) =
     (case map_of kvs ''length'' of
        None \<Rightarrow> Inr None
      | Some (JNum n) \<Rightarrow> Inr (Some n)
      | Some v \<Rightarrow> Inl Unmodelled)"
| "js_length v = Inr None"

text \<open>\<open>v[i]\<close> for a number \<open>i\<close>, on a value whose \<open>length\<close> has been read.\<close>

fun index_get :: "jsval \<Rightarrow> nat \<Rightarrow> jsval" where
  "index_get (JArr xs) i = (if i < length xs then xs ! i else JUndef)"
| "index_get (JStr s) i = (if i < length s then JStr [s ! i] else JUndef)"
| "index_get (JObj kvs) i = lookup kvs (decimal i)"
| "index_get v i = JUndef"

text \<open>\<open>v.length > 0\<close>.\<close>

definition length_positive :: "jsval \<Rightarrow> error + bool" where
  "length_positive v =
     ebind (js_length v) (\<lambda>n. Inr (case n of None \<Rightarrow> False | Some n \<Rightarrow> n > 0))"

text \<open>
  The loop \<open>for (let i = 0; i < v.length; i++)\<close> over \<open>v[i]\<close>: the elements in order,
  each with the value of the test \<open>i < v.length - 1\<close>.
\<close>

definition index_loop :: "jsval \<Rightarrow> error + (bool \<times> jsval) list" where
  "index_loop v =
     ebind (js_length v) (\<lambda>n. Inr (case n of
        None \<Rightarrow> []
      | Some n \<Rightarrow> map (\<lambda>i. (int i < n - 1, index_get v i)) [0..<nat n]))"

text \<open>
  \<open>v.includes(k)\<close> for a string \<open>k\<close>: membership in an array, containment in a string,
  and not a function on anything else.
\<close>

fun js_includes :: "jsval \<Rightarrow> string \<Rightarrow> error + bool" where
  "js_includes (JArr xs) k = Inr (JStr k \<in> set xs)"
| "js_includes (JStr s) k = Inr (is_substring k s)"
| "js_includes v k = Inl TypeError"

text \<open>\<open>context[i]\<close> on the naming context.\<close>

definition context_at :: "jsval list \<Rightarrow> nat \<Rightarrow> jsval" where
  "context_at context i = (if i < length context then context ! i else JUndef)"

text \<open>
  The two case converters and \<open>formatComment\<close> on a value of unknown type: they call
  \<open>replace\<close> and \<open>split\<close>, which only a string has.
\<close>

fun toCamel :: "jsval \<Rightarrow> error + string" where
  "toCamel (JStr s) = Inr (snakeCaseToCamelCase s)"
| "toCamel v = Inl TypeError"

fun toPascal :: "jsval \<Rightarrow> error + string" where
  "toPascal (JStr s) = Inr (snakeCaseToSentenceCase s)"
| "toPascal v = Inl TypeError"

fun formatCommentOf :: "string \<Rightarrow> jsval \<Rightarrow> error + string" where
  "formatCommentOf leader (JStr s) = Inr (formatComment leader s)"
| "formatCommentOf leader v = Inl TypeError"

section \<open>The type tables\<close>

type_synonym typeMap = "(string \<times> string) list"

definition TypescriptTypeMap :: typeMap where
  "TypescriptTypeMap =
     [(''boolean'', ''boolean''), (''integer'', ''number''), (''number'', ''number''),
      (''string'', ''string''), (''null'', ''null''), (''array-begin'', ''Array<''),
      (''array-end'', ''>''), (''object'', ''object'')]"

definition RustTypeMap :: typeMap where
  "RustTypeMap =
     [(''boolean'', ''bool''), (''integer'', ''i64''), (''number'', ''f64''),
      (''string'', ''String''), (''null'', ''null''), (''array-begin'', ''Vec<''),
      (''array-end'', ''>''), (''object'', ''HashMap'')]"

definition PythonTypeMap :: typeMap where
  "PythonTypeMap =
     [(''boolean'', ''bool''), (''integer'', ''int''), (''number'', ''float''),
      (''string'', ''str''), (''null'', ''null''), (''array-begin'', ''List[''),
      (''array-end'', '']''), (''object'', ''Dict'')]"

text \<open>\<open>typeMap[k]\<close> put into text: a missing entry prints as \<open>undefined\<close>.\<close>

definition typeMap_get :: "typeMap \<Rightarrow> string \<Rightarrow> string" where
  "typeMap_get typeMap k = (case map_of typeMap k of Some t \<Rightarrow> t | None \<Rightarrow> ''undefined'')"

section \<open>The reference resolver\<close>

text \<open>
  The loop of \<open>parseRefFromContract\<close> over the parts of the pointer: \<open>None\<close> is the
  early \<open>return undefined\<close>.
\<close>

fun walk :: "string list \<Rightarrow> jsval \<Rightarrow> error + jsval option" where
  "walk [] target = Inr (Some target)"
| "walk (part # parts) target =
     (if part = ''#'' then walk parts target
      else (case entries target of
              Inl e \<Rightarrow> Inl e
            | Inr kvs \<Rightarrow>
                (case map_of kvs part of
                   Some t \<Rightarrow> walk parts t
                 | None \<Rightarrow> Inr None)))"

definition parseRefFromContract :: "string \<Rightarrow> jsval \<Rightarrow> error + string option" where
  "parseRefFromContract ref contract =
     (let parts = split_on CHR ''/'' ref in
      case walk parts contract of
        Inl e \<Rightarrow> Inl e
      | Inr None \<Rightarrow> Inr None
      | Inr (Some target) \<Rightarrow> Inr (Some (snakeCaseToSentenceCase (last parts))))"

text \<open>
  \<open>parseRef\<close>: \<open>ref\<close> is the value of \<open>schema.$ref\<close>; \<open>ref.split\<close> exists only on a
  string. \<open>if (name)\<close> lets an empty name count as not found.
\<close>

fun parseRef :: "jsval \<Rightarrow> jsval list \<Rightarrow> error + string" where
  "parseRef ref [] = Inl (CouldNotFindRef (toString ref))"
| "parseRef ref (contract # contracts) =
     (if \<not> truthy contract then parseRef ref contracts
      else (case ref of
              JStr r \<Rightarrow>
                (case parseRefFromContract r contract of
                   Inl e \<Rightarrow> Inl e
                 | Inr None \<Rightarrow> parseRef ref contracts
                 | Inr (Some name) \<Rightarrow> if name \<noteq> [] then Inr name else parseRef ref contracts)
            | _ \<Rightarrow> Inl TypeError))"

section \<open>The type deriver\<close>

lemma map_of_size:
  "map_of kvs k = Some v \<Longrightarrow> size v < Suc (size_list (size_prod (\<lambda>_. 0) size) kvs)"
  by (induction kvs) (auto split: if_splits)

lemma lookup_size_le: "size (lookup kvs k) \<le> size_list (size_prod (\<lambda>_. 0) size) kvs"
  by (auto simp: lookup_def less_Suc_eq_le split: option.splits dest: map_of_size)

lemma lookup_size: "size (lookup kvs k) < size (JObj kvs)"
  using lookup_size_le[of kvs k] by simp

lemma js_get_size:
  "js_get schema t = Inr (JStr s) \<Longrightarrow> js_get schema k = Inr v \<Longrightarrow> size v < size schema"
  using lookup_size by (cases schema) auto

function deriveType :: "jsval list \<Rightarrow> typeMap \<Rightarrow> jsval \<Rightarrow> jsval \<Rightarrow> error + string" where
  "deriveType contracts typeMap key schema =
     (case js_get schema ''type'' of
        Inl e \<Rightarrow> Inl e
      | Inr ty \<Rightarrow>
          if ty = JStr ''array'' then
            (case js_get schema ''items'' of
               Inl e \<Rightarrow> Inl e
             | Inr items \<Rightarrow>
                 (case deriveType contracts typeMap key items of
                    Inl e \<Rightarrow> Inl e
                  | Inr t \<Rightarrow>
                      Inr (typeMap_get typeMap ''array-begin'' @ t @
                           typeMap_get typeMap ''array-end'')))
          else
            (case js_get schema ''$ref'' of
               Inl e \<Rightarrow> Inl e
             | Inr ref \<Rightarrow>
                 if truthy ref then parseRef ref contracts
                 else if ty = JStr ''object'' then
                   (case js_get schema ''name'' of
                      Inl e \<Rightarrow> Inl e
                    | Inr name \<Rightarrow> if truthy name then toPascal name else toPascal key)
                 else
                   (case ty of
                      JStr t \<Rightarrow>
                        if t \<in> set (map fst typeMap) then Inr (typeMap_get typeMap t)
                        else Inl (UnknownType (toString ty))
                    | _ \<Rightarrow> Inl (UnknownType (toString ty)))))"
  by pat_completeness auto
termination
  by (relation "measure (\<lambda>(contracts, typeMap, key, schema). size schema)")
     (auto dest: js_get_size)

declare deriveType.simps [simp del]

section \<open>The schema visitors\<close>

text \<open>
  A visitor is a generator that delegates to the callback; the callback is itself a
  generator, so a throw in it ends the visit. The chunks are strings in the emitters;
  the type is left open.
\<close>

function enumVisitor ::
  "jsval list \<Rightarrow> jsval \<Rightarrow> (jsval list \<Rightarrow> jsval \<Rightarrow> error + 'a list) \<Rightarrow> error + 'a list"
where
  "enumVisitor context JUndef callback = Inl TypeError"
| "enumVisitor context JNull callback = Inl TypeError"
| "enumVisitor context (JBool b) callback = Inr []"
| "enumVisitor context (JNum n) callback = Inr []"
| "enumVisitor context (JStr s) callback = Inr []"
| "enumVisitor context (JArr items) callback =
     seq (map (\<lambda>item. enumVisitor context item callback) items)"
| "enumVisitor context (JObj kvs) callback =
     (if truthy (lookup kvs ''enum'') then callback context (lookup kvs ''enum'')
      else seq (map (\<lambda>(key, v).
             if truthy (lookup kvs ''name'')
             then enumVisitor (lookup kvs ''name'' # context) v callback
             else if key = ''properties'' \<or> key = ''params''
             then enumVisitor context v callback
             else enumVisitor (JStr key # context) v callback) kvs))"
  by pat_completeness auto
termination
  by (relation "measure (\<lambda>(context, contract, callback). size contract)")
     (auto simp: less_Suc_eq_le size_list_estimation')

function objectVisitor ::
  "jsval list \<Rightarrow> jsval \<Rightarrow> (jsval list \<Rightarrow> jsval \<Rightarrow> error + 'a list) \<Rightarrow> error + 'a list"
where
  "objectVisitor context JUndef callback = Inl TypeError"
| "objectVisitor context JNull callback = Inl TypeError"
| "objectVisitor context (JBool b) callback = Inr []"
| "objectVisitor context (JNum n) callback = Inr []"
| "objectVisitor context (JStr s) callback = Inr []"
| "objectVisitor context (JArr items) callback =
     seq (map (\<lambda>item. objectVisitor context item callback) items)"
| "objectVisitor context (JObj kvs) callback =
     (if lookup kvs ''type'' = JStr ''object''
      then seq [callback context (JObj kvs),
                objectVisitor context (lookup kvs ''properties'') callback]
      else seq (map (\<lambda>(key, v).
             if key = ''schema''
             then objectVisitor context v callback
             else objectVisitor (JStr key # context) v callback) kvs))"
  by pat_completeness auto
termination
  by (relation "measure (\<lambda>(context, contract, callback). size contract)")
     (auto simp: less_Suc_eq_le size_list_estimation' lookup_size_le)

section \<open>Pieces shared by the emitters\<close>

text \<open>
  \<open>!obj.required || !obj.required.includes(key)\<close>: the field is rendered as optional.
\<close>

definition not_required :: "jsval \<Rightarrow> string \<Rightarrow> error + bool" where
  "not_required obj key =
     ebind (js_get obj ''required'') (\<lambda>required.
       if \<not> truthy required then Inr True
       else ebind (js_includes required key) (\<lambda>b. Inr (\<not> b)))"

text \<open>
  \<open>snakeCaseToSentenceCase(context[0]) + ' in ' + snakeCaseToSentenceCase(context[1])\<close>,
  the description of an object that has none of its own.
\<close>

definition default_description :: "jsval list \<Rightarrow> error + string" where
  "default_description context =
     ebind (toPascal (context_at context 0)) (\<lambda>a.
     ebind (toPascal (context_at context 1)) (\<lambda>b. Inr (a @ '' in '' @ b)))"

text \<open>
  The comment of an enumeration, the same text in the three emitters:
  \<open>'Possible values for ' + Pascal(context[0]) + ' in ' + Pascal(context[1])\<close>.
\<close>

definition enum_comment :: "jsval list \<Rightarrow> error + string" where
  "enum_comment context =
     ebind (default_description context) (\<lambda>d. Inr (''Possible values for '' @ d))"

text \<open>
  The parameter names of a method between quotes, separated by commas, as the index
  loops of the TypeScript emitter print them.
\<close>

definition comma_separated :: "(jsval \<Rightarrow> error + string) \<Rightarrow> jsval \<Rightarrow> error + string list" where
  "comma_separated f params =
     ebind (index_loop params) (\<lambda>ps.
       seq (map (\<lambda>(not_last, param).
         seq [yieldE (f param), if not_last then yield '', '' else Inr []]) ps))"

section \<open>The Rust emitter\<close>

definition rust_header :: "nat \<Rightarrow> string \<Rightarrow> string" where
  "rust_header year name =
     ''/*---------------------------------------------------------------------------------------------'' @ nl @
     '' *  Copyright (C) '' @ decimal year @ '' Posit Software, PBC. All rights reserved.'' @ nl @
     '' *--------------------------------------------------------------------------------------------*/'' @ nl @
     nl @
     ''//'' @ nl @
     ''// AUTO-GENERATED from '' @ name @ ''.json; do not edit.'' @ nl @
     ''//'' @ nl @
     nl @
     ''use serde::Deserialize;'' @ nl @
     ''use serde::Serialize;'' @ nl @
     nl"

definition rust_derive :: string where
  "rust_derive = ''#[derive(Debug, Serialize, Deserialize, PartialEq)]'' @ nl"

text \<open>One entry of \<open>backend.components.schemas\<close> in the alias loop.\<close>

definition rust_type_alias :: "jsval list \<Rightarrow> string \<times> jsval \<Rightarrow> error + string list" where
  "rust_type_alias contracts = (\<lambda>(key, schema).
     ebind (js_get schema ''type'') (\<lambda>ty.
       if ty \<noteq> JStr ''object'' then
         seq [ebind (js_get schema ''description'') (\<lambda>d. yieldE (formatCommentOf ''/// '' d)),
              yield (''type '' @ snakeCaseToSentenceCase key @ '' = ''),
              ebind (js_get schema ''name'') (\<lambda>n.
                yieldE (deriveType contracts RustTypeMap
                          (if truthy n then n else JStr key) schema)),
              yield ('';'' @ nl @ nl)]
       else Inr []))"

text \<open>
  The alias section for one \<open>source\<close> of the loop over the contracts. The test reads
  \<open>source.components\<close>; the loop reads \<open>backend.components.schemas\<close>.
\<close>

definition rust_type_aliases :: "jsval list \<Rightarrow> jsval \<Rightarrow> jsval \<Rightarrow> error + string list" where
  "rust_type_aliases contracts backend source =
     ebind (js_get source ''components'') (\<lambda>components.
       if \<not> truthy components then Inr []
       else ebind (js_get components ''schemas'') (\<lambda>schemas.
         if \<not> truthy schemas then Inr []
         else ebind (js_get backend ''components'') (\<lambda>bc.
              ebind (js_get bc ''schemas'') (\<lambda>bs.
              ebind (entries bs) (\<lambda>kvs. seq (map (rust_type_alias contracts) kvs))))))"

text \<open>\<open>o.name ? o.name : context[0] === 'items' ? context[1] : context[0]\<close>.\<close>

definition rust_struct_name :: "jsval list \<Rightarrow> jsval \<Rightarrow> error + jsval" where
  "rust_struct_name context obj =
     ebind (js_get obj ''name'') (\<lambda>n. Inr (
       if truthy n then n
       else if context_at context 0 = JStr ''items'' then context_at context 1
       else context_at context 0))"

definition rust_field ::
  "jsval list \<Rightarrow> jsval \<Rightarrow> nat \<Rightarrow> nat \<times> string \<times> jsval \<Rightarrow> error + string list" where
  "rust_field contracts obj n = (\<lambda>(i, key, prop).
     seq [ebind (js_get prop ''description'') (\<lambda>d.
            if truthy d then yieldE (formatCommentOf (tab @ ''/// '') d) else Inr []),
          yield (tab @ ''pub '' @ key @ '': ''),
          ebind (not_required obj key) (\<lambda>optional.
            if optional
            then seq [yield ''Option<'',
                      yieldE (deriveType contracts RustTypeMap (JStr key) prop),
                      yield ''>'']
            else yieldE (deriveType contracts RustTypeMap (JStr key) prop)),
          if int i < int n - 1 then yield ('','' @ nl) else Inr [],
          yield nl])"

definition rust_object_callback :: "jsval list \<Rightarrow> jsval list \<Rightarrow> jsval \<Rightarrow> error + string list" where
  "rust_object_callback contracts context obj =
     seq [ebind (js_get obj ''description'') (\<lambda>d.
            if truthy d then yieldE (formatCommentOf ''/// '' d)
            else ebind (default_description context) (\<lambda>t. yield (formatComment ''/// '' t))),
          ebind (rust_struct_name context obj) (\<lambda>name.
          ebind (js_get obj ''properties'') (\<lambda>properties.
          ebind (entries properties) (\<lambda>props.
          ebind (js_get obj ''additionalProperties'') (\<lambda>ap.
            if props = [] \<and> ap = JBool True
            then ebind (toPascal name) (\<lambda>t.
                   yield (''pub type '' @ t @ '' = serde_json::Value;'' @ nl @ nl))
            else seq [yield rust_derive,
                      ebind (toPascal name) (\<lambda>t. yield (''pub struct '' @ t @ '' {'' @ nl)),
                      seq (map (rust_field contracts obj (length props))
                             (zip [0..<length props] props)),
                      yield (''}'' @ nl @ nl)]))))]"

definition rust_enum_value :: "bool \<times> jsval \<Rightarrow> error + string list" where
  "rust_enum_value = (\<lambda>(not_last, v).
     seq [yield (tab @ ''#[serde(rename = '' @ dq @ toString v @ dq @ '')]'' @ nl),
          ebind (toPascal v) (\<lambda>t. yield (tab @ t)),
          if not_last then yield ('','' @ nl @ nl) else yield nl])"

definition rust_enum_callback :: "jsval list \<Rightarrow> jsval \<Rightarrow> error + string list" where
  "rust_enum_callback context vals =
     seq [ebind (enum_comment context) (\<lambda>t. yield (formatComment ''/// '' t)),
          yield rust_derive,
          ebind (toPascal (context_at context 1)) (\<lambda>a.
          ebind (toPascal (context_at context 0)) (\<lambda>b.
            yield (''pub enum '' @ a @ b @ '' {'' @ nl))),
          ebind (index_loop vals) (\<lambda>vs. seq (map rust_enum_value vs)),
          yield (''}'' @ nl @ nl)]"

definition rust_param :: "jsval list \<Rightarrow> jsval \<Rightarrow> bool \<times> jsval \<Rightarrow> error + string list" where
  "rust_param contracts method = (\<lambda>(not_last, param).
     seq [ebind (js_get param ''description'') (\<lambda>d.
            if truthy d then yieldE (formatCommentOf (tab @ ''/// '') d) else Inr []),
          ebind (js_get param ''schema'') (\<lambda>schema.
          ebind (js_get schema ''enum'') (\<lambda>enum.
          ebind (js_get param ''name'') (\<lambda>pname.
            if truthy enum then
              ebind (js_get method ''name'') (\<lambda>mname.
              ebind (toPascal mname) (\<lambda>a.
              ebind (toPascal pname) (\<lambda>b.
                yield (tab @ ''pub '' @ toString pname @ '': '' @ a @ b @ '','' @ nl))))
            else
              ebind (js_get schema ''type'') (\<lambda>ty.
              ebind (if ty = JStr ''object''
                     then ebind (js_get schema ''properties'') (\<lambda>p.
                          ebind (entries p) (\<lambda>kvs. Inr (kvs = [])))
                     else Inr False) (\<lambda>any.
                if any
                then yield (tab @ ''pub '' @ toString pname @ '': serde_json::Value,'' @ nl)
                else ebind (deriveType contracts RustTypeMap pname schema) (\<lambda>t.
                       yield (tab @ ''pub '' @ toString pname @ '': '' @ t @ '','' @ nl))))))),
          if not_last then yield nl else Inr []])"

definition rust_params_struct :: "jsval list \<Rightarrow> jsval \<Rightarrow> error + string list" where
  "rust_params_struct contracts method =
     ebind (js_get method ''params'') (\<lambda>params.
     ebind (length_positive params) (\<lambda>pos.
       if pos then
         seq [ebind (js_get method ''name'') (\<lambda>mname.
              ebind (toPascal mname) (\<lambda>t.
                yield (formatComment ''/// '' (''Parameters for the '' @ t @ '' method.'')))),
              yield rust_derive,
              ebind (js_get method ''name'') (\<lambda>mname.
              ebind (toPascal mname) (\<lambda>t. yield (''pub struct '' @ t @ ''Params {'' @ nl))),
              ebind (index_loop params) (\<lambda>ps. seq (map (rust_param contracts method) ps)),
              yield (''}'' @ nl @ nl)]
       else Inr []))"

text \<open>A variant of the request or event enumeration.\<close>

definition rust_variant :: "jsval \<Rightarrow> error + string list" where
  "rust_variant method =
     seq [ebind (js_get method ''name'') (\<lambda>mname.
            yield (tab @ ''#[serde(rename = '' @ dq @ toString mname @ dq @ '')]'' @ nl)),
          ebind (js_get method ''name'') (\<lambda>mname.
          ebind (toPascal mname) (\<lambda>t. yield (tab @ t))),
          ebind (js_get method ''params'') (\<lambda>params.
          ebind (length_positive params) (\<lambda>pos.
            if pos
            then ebind (js_get method ''name'') (\<lambda>mname.
                 ebind (toPascal mname) (\<lambda>t. yield (''('' @ t @ ''Params),'' @ nl @ nl)))
            else yield ('','' @ nl @ nl)))]"

definition rust_request :: "jsval \<Rightarrow> error + string list" where
  "rust_request method =
     seq [ebind (js_get method ''summary'') (\<lambda>summary.
            if truthy summary then
              seq [yieldE (formatCommentOf (tab @ ''/// '') summary),
                   ebind (js_get method ''description'') (\<lambda>d.
                     if truthy d
                     then seq [yield (tab @ ''///'' @ nl),
                               yieldE (formatCommentOf (tab @ ''/// '') d)]
                     else Inr [])]
            else Inr []),
          rust_variant method]"

text \<open>
  \<open>RustTypeMap[schema.type]\<close> is a plain property read, which also finds what the table
  inherits from \<open>Object.prototype\<close>: inside the template literal a function prints as
  its source text and the prototype itself as an object.
\<close>

definition prototype_names :: "string list" where
  "prototype_names =
     [''constructor'', ''hasOwnProperty'', ''isPrototypeOf'', ''propertyIsEnumerable'',
      ''toLocaleString'', ''toString'', ''valueOf'', ''__proto__'', ''__defineGetter__'',
      ''__defineSetter__'', ''__lookupGetter__'', ''__lookupSetter__'']"

definition inherited_text :: "string \<Rightarrow> string" where
  "inherited_text k =
     (if k = ''__proto__'' then ''[object Object]''
      else if k = ''constructor'' then ''function Object() { [native code] }''
      else ''function '' @ k @ ''() { [native code] }'')"

definition rust_reply_type :: "string \<Rightarrow> string" where
  "rust_reply_type k =
     (case map_of RustTypeMap k of
        Some t \<Rightarrow> t
      | None \<Rightarrow> if k \<in> set prototype_names then inherited_text k else ''undefined'')"

definition rust_reply :: "jsval \<Rightarrow> error + string list" where
  "rust_reply method =
     ebind (js_get method ''result'') (\<lambda>result.
     ebind (js_get result ''schema'') (\<lambda>schema.
       if truthy schema then
         seq [ebind (js_get schema ''description'') (\<lambda>d.
                if truthy d then yieldE (formatCommentOf (tab @ ''/// '') d) else Inr []),
              ebind (js_get method ''name'') (\<lambda>mname.
              ebind (toPascal mname) (\<lambda>t. yield (tab @ t @ ''Reply''))),
              ebind (js_get schema ''type'') (\<lambda>ty.
                if ty = JStr ''object''
                then ebind (js_get schema ''name'') (\<lambda>sname.
                     ebind (toPascal sname) (\<lambda>t. yield (''('' @ t @ ''),'' @ nl @ nl)))
                else yield (''('' @ rust_reply_type (toString ty) @ ''),'' @ nl @ nl))]
       else Inr []))"

definition rust_rpc :: "string \<Rightarrow> jsval \<Rightarrow> error + string list" where
  "rust_rpc name backend =
     seq [yield (''/**'' @ nl),
          yield ('' * RPC request types for the '' @ name @ '' comm'' @ nl),
          yield ('' */'' @ nl),
          yield rust_derive,
          yield (''#[serde(tag = '' @ dq @ ''method'' @ dq @ '', content = '' @ dq @ ''params'' @ dq @ '')]'' @ nl),
          yield (''pub enum '' @ snakeCaseToSentenceCase name @ ''RpcRequest {'' @ nl),
          ebind (js_get backend ''methods'') (\<lambda>methods.
          ebind (iter methods) (\<lambda>ms. seq (map rust_request ms))),
          yield (''}'' @ nl @ nl),
          yield (''/**'' @ nl),
          yield ('' * RPC Reply types for the '' @ name @ '' comm'' @ nl),
          yield ('' */'' @ nl),
          yield rust_derive,
          yield (''#[serde(tag = '' @ dq @ ''method'' @ dq @ '', content = '' @ dq @ ''result'' @ dq @ '')]'' @ nl),
          yield (''pub enum '' @ snakeCaseToSentenceCase name @ ''RpcReply {'' @ nl),
          ebind (js_get backend ''methods'') (\<lambda>methods.
          ebind (iter methods) (\<lambda>ms. seq (map rust_reply ms))),
          yield (''}'' @ nl @ nl)]"

definition rust_events :: "string \<Rightarrow> jsval \<Rightarrow> error + string list" where
  "rust_events name frontend =
     seq [yield (''/**'' @ nl),
          yield ('' * Front-end events for the '' @ name @ '' comm'' @ nl),
          yield ('' */'' @ nl),
          yield rust_derive,
          yield (''#[serde(tag = '' @ dq @ ''method'' @ dq @ '', content = '' @ dq @ ''params'' @ dq @ '')]'' @ nl),
          yield (''pub enum '' @ snakeCaseToSentenceCase name @ ''Event {'' @ nl),
          ebind (js_get frontend ''methods'') (\<lambda>methods.
          ebind (iter methods) (\<lambda>ms. seq (map rust_variant ms))),
          yield (''}'' @ nl @ nl)]"

definition createRustComm :: "nat \<Rightarrow> string \<Rightarrow> jsval \<Rightarrow> jsval \<Rightarrow> error + string list" where
  "createRustComm year name frontend backend =
     (let contracts = [backend, frontend] in
      seq [yield (rust_header year name),
           seq (map (\<lambda>source.
             if \<not> truthy source then Inr []
             else seq [rust_type_aliases contracts backend source,
                       objectVisitor [] source (rust_object_callback contracts),
                       enumVisitor [] source rust_enum_callback]) contracts),
           seq (map (\<lambda>source.
             if \<not> truthy source then Inr []
             else ebind (js_get source ''methods'') (\<lambda>methods.
                  ebind (iter methods) (\<lambda>ms.
                    seq (map (rust_params_struct contracts) ms)))) [backend, frontend]),
           if truthy backend then rust_rpc name backend else Inr [],
           if truthy frontend then rust_events name frontend else Inr []])"

section \<open>The Python emitter\<close>

definition python_header :: "nat \<Rightarrow> string \<Rightarrow> string" where
  "python_header year name =
     ''#'' @ nl @
     ''# Copyright (C) '' @ decimal year @ '' Posit Software, PBC. All rights reserved.'' @ nl @
     ''#'' @ nl @
     nl @
     ''#'' @ nl @
     ''# AUTO-GENERATED from '' @ name @ ''.json; do not edit.'' @ nl @
     ''#'' @ nl @
     nl @
     ''import enum'' @ nl @
     ''from dataclasses import dataclass, field'' @ nl @
     ''from typing import Dict, List, Union'' @ nl @
     ''JsonData = Union[Dict[str, '' @ dq @ ''JsonData'' @ dq @ ''], List['' @ dq @ ''JsonData'' @ dq @
       ''], str, int, float, bool, None]'' @ nl @
     nl"

definition python_docstring_quotes :: string where
  "python_docstring_quotes = ''    '' @ dq @ dq @ dq @ nl"

text \<open>\<open>o.name ? o.name : context[0] === 'items' ? context[1] : context[0]\<close>.\<close>

definition python_class_name :: "jsval list \<Rightarrow> jsval \<Rightarrow> error + jsval" where
  "python_class_name context obj =
     ebind (js_get obj ''name'') (\<lambda>n. Inr (
       if truthy n then n
       else if context_at context 0 = JStr ''items'' then context_at context 1
       else context_at context 0))"

definition python_field :: "jsval list \<Rightarrow> jsval \<Rightarrow> string \<times> jsval \<Rightarrow> error + string list" where
  "python_field contracts obj = (\<lambda>(prop, schema).
     seq [yield (''    '' @ prop @ '': ''),
          ebind (not_required obj prop) (\<lambda>optional.
            if optional
            then seq [yield ''Optional['',
                      yieldE (deriveType contracts PythonTypeMap (JStr prop) schema),
                      yield '']'']
            else yieldE (deriveType contracts PythonTypeMap (JStr prop) schema)),
          yield ('' = field('' @ nl),
          yield (''        metadata={'' @ nl),
          ebind (js_get schema ''description'') (\<lambda>d.
            yield (''            '' @ dq @ ''description'' @ dq @ '': '' @ dq @ toString d @ dq @
                   '','' @ nl)),
          ebind (not_required obj prop) (\<lambda>optional.
            if optional
            then yield (''            '' @ dq @ ''default'' @ dq @ '': None,'' @ nl)
            else Inr []),
          yield (''        }'' @ nl),
          yield (''    )'' @ nl @ nl)])"

definition python_object_callback ::
  "jsval list \<Rightarrow> jsval list \<Rightarrow> jsval \<Rightarrow> error + string list" where
  "python_object_callback contracts context obj =
     ebind (python_class_name context obj) (\<lambda>n.
     ebind (toPascal n) (\<lambda>name.
     ebind (js_get obj ''properties'') (\<lambda>properties.
     ebind (entries properties) (\<lambda>props.
     ebind (js_get obj ''additionalProperties'') (\<lambda>ap.
       if props = [] \<and> ap = JBool True then yield (name @ '' = JsonData'' @ nl)
       else
         seq [yield (''@dataclass'' @ nl),
              yield (''class '' @ name @ '':'' @ nl),
              ebind (js_get obj ''description'') (\<lambda>d.
                if truthy d
                then seq [yield python_docstring_quotes,
                          yieldE (formatCommentOf ''    '' d),
                          yield python_docstring_quotes,
                          yield nl]
                else seq [yield python_docstring_quotes,
                          ebind (default_description context) (\<lambda>t.
                            yield (formatComment ''    '' t)),
                          yield python_docstring_quotes,
                          yield nl]),
              seq (map (python_field contracts obj) props),
              yield (nl @ nl)])))))"

definition python_enum_value :: "bool \<times> jsval \<Rightarrow> error + string list" where
  "python_enum_value = (\<lambda>(not_last, v).
     seq [ebind (toPascal v) (\<lambda>t. yield (''    '' @ t @ '' = '' @ dq @ toString v @ dq)),
          if not_last then yield (nl @ nl) else yield nl])"

definition python_enum_callback :: "jsval list \<Rightarrow> jsval \<Rightarrow> error + string list" where
  "python_enum_callback context vals =
     seq [yield (''@enum.unique'' @ nl),
          ebind (toPascal (context_at context 1)) (\<lambda>a. yield (''class '' @ a)),
          ebind (toPascal (context_at context 0)) (\<lambda>b. yield (b @ ''(str, enum.Enum):'' @ nl)),
          yield python_docstring_quotes,
          ebind (enum_comment context) (\<lambda>t. yield (formatComment ''    '' t)),
          yield python_docstring_quotes,
          yield nl,
          ebind (index_loop vals) (\<lambda>vs. seq (map python_enum_value vs)),
          yield (nl @ nl)]"

text \<open>
  A parameter of a method as a dataclass field; \<open>comma\<close> is the comma that ends the
  description line for a backend method and is absent for a frontend one.
\<close>

definition python_param :: "jsval list \<Rightarrow> jsval \<Rightarrow> string \<Rightarrow> jsval \<Rightarrow> error + string list" where
  "python_param contracts method comma param =
     seq [ebind (js_get param ''schema'') (\<lambda>schema.
          ebind (js_get schema ''enum'') (\<lambda>enum.
          ebind (js_get param ''name'') (\<lambda>pname.
            if truthy enum then
              ebind (js_get method ''name'') (\<lambda>mname.
              ebind (toPascal mname) (\<lambda>a.
              ebind (toPascal pname) (\<lambda>b.
                yield (''    '' @ toString pname @ '': '' @ a @ b))))
            else
              ebind (deriveType contracts PythonTypeMap pname schema) (\<lambda>t.
                yield (''    '' @ toString pname @ '': '' @ t))))),
          yield ('' = field('' @ nl),
          yield (''        metadata={'' @ nl),
          ebind (js_get param ''description'') (\<lambda>d.
            yield (''            '' @ dq @ ''description'' @ dq @ '': '' @ dq @ toString d @ dq @
                   comma @ nl)),
          yield (''        }'' @ nl),
          yield (''    )'' @ nl @ nl)]"

definition python_request_member :: "jsval \<Rightarrow> error + string list" where
  "python_request_member method =
     ebind (js_get method ''result'') (\<lambda>result.
       if truthy result then
         seq [ebind (js_get method ''summary'') (\<lambda>s. yieldE (formatCommentOf ''    # '' s)),
              ebind (js_get method ''name'') (\<lambda>mname.
              ebind (toPascal mname) (\<lambda>t.
                yield (''    '' @ t @ '' = '' @ dq @ toString mname @ dq @ nl))),
              yield nl]
       else Inr [])"

definition python_backend_method ::
  "jsval list \<Rightarrow> string \<Rightarrow> jsval \<Rightarrow> error + string list" where
  "python_backend_method contracts name method =
     ebind (js_get method ''description'') (\<lambda>description.
     ebind (js_get method ''name'') (\<lambda>mname.
       if \<not> truthy description then Inl (NoDescription (toString mname))
       else
         seq [yield (''@dataclass'' @ nl),
              ebind (toPascal mname) (\<lambda>t. yield (''class '' @ t @ ''Params:'' @ nl)),
              yield python_docstring_quotes,
              yieldE (formatCommentOf ''    '' description),
              yield python_docstring_quotes,
              yield nl,
              ebind (js_get method ''params'') (\<lambda>params.
              ebind (iter params) (\<lambda>ps.
                seq (map (python_param contracts method '','') ps))),
              ebind (toPascal mname) (\<lambda>t.
                seq [yield (''@dataclass'' @ nl),
                     yield (''class '' @ t @ ''Request:'' @ nl),
                     yield python_docstring_quotes,
                     yieldE (formatCommentOf ''    '' description),
                     yield python_docstring_quotes,
                     yield nl,
                     yield (''    def __post_init__(self):'' @ nl),
                     yield (''        '' @ dq @ dq @ dq @
                            '' Revive RPC parameters after initialization '' @ dq @ dq @ dq @ nl),
                     yield (''        if isinstance(self.params, dict):'' @ nl),
                     yield ''             self.params = '',
                     yield (t @ ''Params(**self.params)'' @ nl),
                     yield nl,
                     yield (''    params: '' @ t @ ''Params = field('' @ nl),
                     yield (''        metadata={'' @ nl),
                     yield (''            '' @ dq @ ''description'' @ dq @ '': '' @ dq @
                            ''Parameters to the '' @ t @ '' method'' @ dq @ nl),
                     yield (''        }'' @ nl),
                     yield (''    )'' @ nl),
                     yield nl,
                     yield (''    method: '' @ snakeCaseToSentenceCase name @ ''Request = field('' @ nl),
                     yield (''        metadata={'' @ nl),
                     yield (''            '' @ dq @ ''description'' @ dq @ '': '' @ dq @
                            ''The JSON-RPC method name ('' @ toString mname @ '')'' @ dq @ nl),
                     yield (''        },'' @ nl),
                     yield ''        default='',
                     yield (snakeCaseToSentenceCase name @ ''Request.'' @ t @ nl),
                     yield (''    )'' @ nl),
                     yield nl,
                     yield (''    jsonrpc: str = field('' @ nl),
                     yield (''        metadata={'' @ nl),
                     yield (''            '' @ dq @ ''description'' @ dq @ '': '' @ dq @
                            ''The JSON-RPC version specifier'' @ dq @ nl),
                     yield (''        },'' @ nl),
                     yield (''        default='' @ dq @ ''2.0'' @ dq),
                     yield (''    )'' @ nl),
                     yield nl])]))"

definition python_event_member :: "jsval \<Rightarrow> error + string list" where
  "python_event_member method =
     seq [ebind (js_get method ''summary'') (\<lambda>s. yieldE (formatCommentOf ''    # '' s)),
          ebind (js_get method ''name'') (\<lambda>mname.
          ebind (toPascal mname) (\<lambda>t.
            yield (''    '' @ t @ '' = '' @ dq @ toString mname @ dq @ nl))),
          yield nl]"

definition python_event_params :: "jsval list \<Rightarrow> jsval \<Rightarrow> error + string list" where
  "python_event_params contracts method =
     ebind (js_get method ''params'') (\<lambda>params.
     ebind (length_positive params) (\<lambda>pos.
       if pos then
         seq [yield (''@dataclass'' @ nl),
              ebind (js_get method ''name'') (\<lambda>mname.
              ebind (toPascal mname) (\<lambda>t. yield (''class '' @ t @ ''Params:'' @ nl))),
              yield python_docstring_quotes,
              ebind (js_get method ''summary'') (\<lambda>s. yieldE (formatCommentOf ''    '' s)),
              yield python_docstring_quotes,
              yield nl,
              ebind (iter params) (\<lambda>ps. seq (map (python_param contracts method []) ps))]
       else Inr []))"

definition createPythonComm :: "nat \<Rightarrow> string \<Rightarrow> jsval \<Rightarrow> jsval \<Rightarrow> error + string list" where
  "createPythonComm year name frontend backend =
     (let contracts = [backend, frontend] in
      seq [yield (python_header year name),
           seq (map (\<lambda>source.
             if \<not> truthy source then Inr []
             else seq [objectVisitor [] source (python_object_callback contracts),
                       enumVisitor [] source python_enum_callback]) contracts),
           if truthy backend then
             seq [yield (''@enum.unique'' @ nl),
                  yield (''class '' @ snakeCaseToSentenceCase name @ ''Request(str, enum.Enum):'' @ nl),
                  yield python_docstring_quotes,
                  yield (''    An enumeration of all the possible requests that can be sent to the ''
                         @ name @ '' comm.'' @ nl),
                  yield python_docstring_quotes,
                  yield nl,
                  ebind (js_get backend ''methods'') (\<lambda>methods.
                  ebind (iter methods) (\<lambda>ms. seq (map python_request_member ms)))]
           else Inr [],
           if truthy backend then
             ebind (js_get backend ''methods'') (\<lambda>methods.
             ebind (iter methods) (\<lambda>ms.
               seq (map (python_backend_method contracts name) ms)))
           else Inr [],
           if truthy frontend then
             seq [yield (''@enum.unique'' @ nl),
                  yield (''class '' @ snakeCaseToSentenceCase name @ ''Event(str, enum.Enum):'' @ nl),
                  yield python_docstring_quotes,
                  yield (''    An enumeration of all the possible events that can be sent from the ''
                         @ name @ '' comm.'' @ nl),
                  yield python_docstring_quotes,
                  yield nl,
                  ebind (js_get frontend ''methods'') (\<lambda>methods.
                  ebind (iter methods) (\<lambda>ms. seq (map python_event_member ms))),
                  ebind (js_get frontend ''methods'') (\<lambda>methods.
                  ebind (iter methods) (\<lambda>ms.
                    seq (map (python_event_params contracts) ms)))]
           else Inr []])"

section \<open>The TypeScript emitter\<close>

definition typescript_header :: "nat \<Rightarrow> string \<Rightarrow> string" where
  "typescript_header year name =
     ''/*---------------------------------------------------------------------------------------------'' @ nl @
     '' *  Copyright (C) '' @ decimal year @ '' Posit Software, PBC. All rights reserved.'' @ nl @
     '' *--------------------------------------------------------------------------------------------*/'' @ nl @
     nl @
     ''//'' @ nl @
     ''// AUTO-GENERATED from '' @ name @ ''.json; do not edit.'' @ nl @
     ''//'' @ nl @
     nl"

definition typescript_imports :: string where
  "typescript_imports =
     ''import { PositronBaseComm } from '' @ sq @
       ''vs/workbench/services/languageRuntime/common/positronBaseComm'' @ sq @ '';'' @ nl @
     ''import { IRuntimeClientInstance } from '' @ sq @
       ''vs/workbench/services/languageRuntime/common/languageRuntimeClientInstance'' @ sq @ '';'' @ nl @
     nl"

text \<open>One property of an interface, in the loop of \<open>createTypescriptInterface\<close>.\<close>

definition typescript_field ::
  "jsval list \<Rightarrow> jsval \<Rightarrow> jsval \<Rightarrow> string \<times> jsval \<Rightarrow> error + string list" where
  "typescript_field contracts name required = (\<lambda>(prop, schema).
     ebind (js_get schema ''description'') (\<lambda>d.
       if \<not> truthy d then Inl (NoDescription (toString name @ ''.'' @ prop))
       else
         seq [yield (tab @ ''/**'' @ nl),
              yieldE (formatCommentOf (tab @ '' * '') d),
              yield (tab @ '' */'' @ nl),
              yield (tab @ prop),
              ebind (js_includes required prop) (\<lambda>b. if \<not> b then yield ''?'' else Inr []),
              yield '': '',
              ebind (js_get schema ''type'') (\<lambda>ty.
                if ty = JStr ''object''
                then ebind (js_get schema ''name'') (\<lambda>n. yieldE (toPascal n))
                else ebind (js_get schema ''enum'') (\<lambda>enum.
                  if ty = JStr ''string'' \<and> truthy enum
                  then ebind (toPascal name) (\<lambda>a. yield (a @ snakeCaseToSentenceCase prop))
                  else yieldE (deriveType contracts TypescriptTypeMap (JStr prop) schema))),
              yield ('';'' @ nl @ nl)]))"

definition createTypescriptInterface ::
  "jsval list \<Rightarrow> jsval \<Rightarrow> jsval \<Rightarrow> jsval \<Rightarrow> jsval \<Rightarrow> jsval \<Rightarrow> error + string list" where
  "createTypescriptInterface contracts name description properties required
       additionalProperties =
     (if \<not> truthy description then Inl (NoDescription (toString name))
      else
        seq [yield (''/**'' @ nl),
             yieldE (formatCommentOf '' * '' description),
             yield ('' */'' @ nl),
             ebind (toPascal name) (\<lambda>t. yield (''export interface '' @ t @ '' {'' @ nl)),
             ebind (if \<not> truthy properties then Inr True
                    else ebind (entries properties) (\<lambda>kvs. Inr (kvs = []))) (\<lambda>empty.
               if empty then
                 (if \<not> truthy additionalProperties then Inl (NoProperties (toString name))
                  else yield (tab @ ''[k: string]: unknown;'' @ nl))
               else Inr []),
             ebind (entries properties) (\<lambda>kvs.
               seq (map (typescript_field contracts name required) kvs)),
             yield (''}'' @ nl @ nl)])"

text \<open>\<open>o.name ? o.name : context[0] === 'items' ? context[1] : context[0]\<close>.\<close>

definition typescript_interface_name :: "jsval list \<Rightarrow> jsval \<Rightarrow> error + jsval" where
  "typescript_interface_name context obj =
     ebind (js_get obj ''name'') (\<lambda>n. Inr (
       if truthy n then n
       else if context_at context 0 = JStr ''items'' then context_at context 1
       else context_at context 0))"

definition typescript_object_callback ::
  "jsval list \<Rightarrow> jsval list \<Rightarrow> jsval \<Rightarrow> error + string list" where
  "typescript_object_callback contracts context obj =
     ebind (typescript_interface_name context obj) (\<lambda>name.
     ebind (js_get obj ''description'') (\<lambda>d.
     ebind (if truthy d then Inr d
            else ebind (default_description context) (\<lambda>t. Inr (JStr t))) (\<lambda>description.
     ebind (js_get obj ''additionalProperties'') (\<lambda>ap.
     ebind (js_get obj ''properties'') (\<lambda>properties.
     ebind (js_get obj ''required'') (\<lambda>required.
       createTypescriptInterface contracts name description properties
         (if truthy required then required else JArr [])
         (if truthy ap then ap else JBool False)))))))"

definition typescript_enum_value :: "bool \<times> jsval \<Rightarrow> error + string list" where
  "typescript_enum_value = (\<lambda>(not_last, v).
     seq [ebind (toPascal v) (\<lambda>t. yield (tab @ t @ '' = '' @ sq @ toString v @ sq)),
          if not_last then yield ('','' @ nl) else yield nl])"

definition typescript_enum_callback :: "jsval list \<Rightarrow> jsval \<Rightarrow> error + string list" where
  "typescript_enum_callback context vals =
     seq [yield (''/**'' @ nl),
          ebind (enum_comment context) (\<lambda>t. yield (formatComment '' * '' t)),
          yield ('' */'' @ nl),
          ebind (toPascal (context_at context 1)) (\<lambda>a.
          ebind (toPascal (context_at context 0)) (\<lambda>b.
            yield (''export enum '' @ a @ b @ '' {'' @ nl))),
          ebind (index_loop vals) (\<lambda>vs. seq (map typescript_enum_value vs)),
          yield (''}'' @ nl @ nl)]"

text \<open>One entry of \<open>backend.components.schemas\<close> in the alias loop.\<close>

definition typescript_type_alias :: "jsval list \<Rightarrow> string \<times> jsval \<Rightarrow> error + string list" where
  "typescript_type_alias contracts = (\<lambda>(key, schema).
     ebind (js_get schema ''type'') (\<lambda>ty.
       if ty \<noteq> JStr ''object'' then
         seq [yield (''/**'' @ nl),
              ebind (js_get schema ''description'') (\<lambda>d. yieldE (formatCommentOf '' * '' d)),
              yield ('' */'' @ nl),
              yield (''export type '' @ snakeCaseToSentenceCase key @ '' = ''),
              yieldE (deriveType contracts TypescriptTypeMap (JStr key) schema),
              yield ('';'' @ nl @ nl)]
       else Inr []))"

text \<open>
  The alias section for one \<open>source\<close> of the loop over the contracts. The test reads
  \<open>source.components\<close>; the loop reads \<open>backend.components.schemas\<close>.
\<close>

definition typescript_type_aliases ::
  "jsval list \<Rightarrow> jsval \<Rightarrow> jsval \<Rightarrow> error + string list" where
  "typescript_type_aliases contracts backend source =
     ebind (js_get source ''components'') (\<lambda>components.
       if \<not> truthy components then Inr []
       else ebind (js_get components ''schemas'') (\<lambda>schemas.
         if \<not> truthy schemas then Inr []
         else ebind (js_get backend ''components'') (\<lambda>bc.
              ebind (js_get bc ''schemas'') (\<lambda>bs.
              ebind (entries bs) (\<lambda>kvs. seq (map (typescript_type_alias contracts) kvs))))))"

text \<open>
  The type of a parameter: the enumeration named after the method and the parameter, or
  the derived type.
\<close>

definition typescript_param_type :: "jsval list \<Rightarrow> jsval \<Rightarrow> jsval \<Rightarrow> error + string" where
  "typescript_param_type contracts method param =
     ebind (js_get param ''schema'') (\<lambda>schema.
     ebind (js_get schema ''type'') (\<lambda>ty.
     ebind (js_get schema ''enum'') (\<lambda>enum.
       if ty = JStr ''string'' \<and> truthy enum then
         ebind (js_get method ''name'') (\<lambda>mname.
         ebind (toPascal mname) (\<lambda>a.
         ebind (js_get param ''name'') (\<lambda>pname.
         ebind (toPascal pname) (\<lambda>b. Inr (a @ b)))))
       else
         ebind (js_get param ''name'') (\<lambda>pname.
           deriveType contracts TypescriptTypeMap pname schema))))"

definition typescript_event_param :: "jsval list \<Rightarrow> jsval \<Rightarrow> jsval \<Rightarrow> error + string list" where
  "typescript_event_param contracts method param =
     seq [yield (tab @ ''/**'' @ nl),
          ebind (js_get param ''description'') (\<lambda>d.
            yield (formatComment (tab @ '' * '') (toString d))),
          yield (tab @ '' */'' @ nl),
          ebind (js_get param ''name'') (\<lambda>pname. yield (tab @ toString pname @ '': '')),
          yieldE (typescript_param_type contracts method param),
          yield ('';'' @ nl @ nl)]"

text \<open>
  The event interface of a frontend method without a result; methods with a result are
  skipped by \<open>continue\<close>.
\<close>

definition typescript_event_interface :: "jsval list \<Rightarrow> jsval \<Rightarrow> error + string list" where
  "typescript_event_interface contracts method =
     ebind (js_get method ''result'') (\<lambda>result.
       if truthy result then Inr []
       else
         ebind (js_get method ''name'') (\<lambda>mname.
         ebind (toPascal mname) (\<lambda>sentenceName.
           seq [yield (''/**'' @ nl),
                ebind (js_get method ''summary'') (\<lambda>s.
                  yield (formatComment '' * '' (''Event: '' @ toString s))),
                yield ('' */'' @ nl),
                yield (''export interface '' @ sentenceName @ ''Event {'' @ nl),
                ebind (js_get method ''params'') (\<lambda>params.
                ebind (iter params) (\<lambda>ps.
                  seq (map (typescript_event_param contracts method) ps))),
                yield (''}'' @ nl @ nl)])))"

text \<open>The entry that the same loop pushes onto \<open>events\<close>.\<close>

definition typescript_event_member :: "jsval \<Rightarrow> error + string list" where
  "typescript_event_member method =
     ebind (js_get method ''result'') (\<lambda>result.
       if truthy result then Inr []
       else
         ebind (js_get method ''name'') (\<lambda>mname.
         ebind (toPascal mname) (\<lambda>sentenceName.
           Inr [tab @ sentenceName @ '' = '' @ sq @ toString mname @ sq])))"

definition typescript_events :: "jsval list \<Rightarrow> string \<Rightarrow> jsval \<Rightarrow> error + string list" where
  "typescript_events contracts name frontend =
     ebind (js_get frontend ''methods'') (\<lambda>methods.
     ebind (iter methods) (\<lambda>ms.
       seq [seq (map (typescript_event_interface contracts) ms),
            yield (''export enum '' @ snakeCaseToSentenceCase name @ ''Event {'' @ nl),
            ebind (seq (map typescript_event_member ms)) (\<lambda>events.
              yield (join_with ('','' @ nl) events)),
            yield (nl @ ''}'' @ nl @ nl)]))"

definition typescript_emitter_init :: "jsval \<Rightarrow> error + string list" where
  "typescript_emitter_init method =
     ebind (js_get method ''result'') (\<lambda>result.
       if truthy result then Inr []
       else
         seq [ebind (js_get method ''name'') (\<lambda>mname.
              ebind (toPascal mname) (\<lambda>t. yield (tab @ tab @ ''this.onDid'' @ t @ '' = ''))),
              ebind (js_get method ''name'') (\<lambda>mname.
                yield (''super.createEventEmitter('' @ sq @ toString mname @ sq @ '', ['')),
              ebind (js_get method ''params'') (\<lambda>params.
                comma_separated (\<lambda>param.
                  ebind (js_get param ''name'') (\<lambda>pname. Inr (sq @ toString pname @ sq)))
                  params),
              yield ('']);'' @ nl)])"

definition typescript_method_param :: "jsval list \<Rightarrow> jsval \<Rightarrow> bool \<times> jsval \<Rightarrow> error + string list" where
  "typescript_method_param contracts method = (\<lambda>(not_last, param).
     ebind (js_get param ''schema'') (\<lambda>schema.
     ebind (js_get method ''name'') (\<lambda>mname.
     ebind (js_get param ''name'') (\<lambda>pname.
       if \<not> truthy schema then Inl (NoSchema (toString mname) (toString pname))
       else
         seq [ebind (toCamel pname) (\<lambda>t. yield (t @ '': '')),
              yieldE (typescript_param_type contracts method param),
              if not_last then yield '', '' else Inr []]))))"

definition typescript_method :: "jsval list \<Rightarrow> jsval \<Rightarrow> error + string list" where
  "typescript_method contracts method =
     ebind (js_get method ''params'') (\<lambda>params.
     ebind (js_get method ''name'') (\<lambda>mname.
     ebind (js_get method ''result'') (\<lambda>result.
     ebind (if truthy result then js_get result ''schema'' else Inr result) (\<lambda>rschema.
       seq [yield (tab @ ''/**'' @ nl),
            ebind (js_get method ''summary'') (\<lambda>s. yieldE (formatCommentOf (tab @ '' * '') s)),
            ebind (js_get method ''description'') (\<lambda>d.
              if truthy d
              then seq [yield (tab @ '' *'' @ nl), yieldE (formatCommentOf (tab @ '' * '') d)]
              else Inr []),
            yield (tab @ '' *'' @ nl),
            ebind (index_loop params) (\<lambda>ps.
              seq (map (\<lambda>(not_last, param).
                ebind (js_get param ''name'') (\<lambda>pname.
                ebind (toCamel pname) (\<lambda>t.
                ebind (js_get param ''description'') (\<lambda>d.
                  yield (formatComment (tab @ '' * '')
                           (''@param '' @ t @ '' '' @ toString d)))))) ps)),
            yield (tab @ '' *'' @ nl),
            if truthy rschema
            then ebind (js_get rschema ''description'') (\<lambda>d.
                   yield (formatComment (tab @ '' * '') (''@returns '' @ toString d)))
            else Inr [],
            yield (tab @ '' */'' @ nl),
            ebind (toCamel mname) (\<lambda>t. yield (tab @ t @ ''('')),
            ebind (index_loop params) (\<lambda>ps.
              seq (map (typescript_method_param contracts method) ps)),
            yield ''): Promise<'',
            if truthy rschema
            then ebind (js_get rschema ''type'') (\<lambda>ty.
                   if ty = JStr ''object''
                   then ebind (js_get rschema ''name'') (\<lambda>n. yieldE (toPascal n))
                   else yieldE (deriveType contracts TypescriptTypeMap mname rschema))
            else yield ''void'',
            yield (''> {'' @ nl),
            yield (tab @ tab @ ''return super.performRpc('' @ sq @ toString mname @ sq @ '', [''),
            comma_separated (\<lambda>param.
              ebind (js_get param ''name'') (\<lambda>pname. Inr (sq @ toString pname @ sq))) params,
            yield ''], ['',
            comma_separated (\<lambda>param.
              ebind (js_get param ''name'') (\<lambda>pname. toCamel pname)) params,
            yield ('']);'' @ nl),
            yield (tab @ ''}'' @ nl @ nl)]))))"

definition typescript_event_declaration :: "jsval \<Rightarrow> error + string list" where
  "typescript_event_declaration method =
     ebind (js_get method ''result'') (\<lambda>result.
       if truthy result then Inr []
       else
         seq [yield (tab @ ''/**'' @ nl),
              ebind (js_get method ''summary'') (\<lambda>s. yieldE (formatCommentOf (tab @ '' * '') s)),
              ebind (js_get method ''description'') (\<lambda>d.
                if truthy d
                then seq [yield (tab @ '' *'' @ nl), yieldE (formatCommentOf (tab @ '' * '') d)]
                else Inr []),
              yield (tab @ '' */'' @ nl),
              ebind (js_get method ''name'') (\<lambda>mname.
              ebind (toPascal mname) (\<lambda>t.
                seq [yield (tab @ ''onDid'' @ t @ '': ''),
                     yield (''Event<'' @ t @ ''Event>;'' @ nl)]))])"

text \<open>
  \<open>metadata\<close> is the outcome of reading and parsing \<open>${name}.json\<close>, the first
  statement of the generator; its value is not used.
\<close>

definition createTypescriptComm ::
  "nat \<Rightarrow> error + jsval \<Rightarrow> string \<Rightarrow> jsval \<Rightarrow> jsval \<Rightarrow> error + string list" where
  "createTypescriptComm year metadata name frontend backend =
     (let contracts = [backend, frontend] in
      ebind metadata (\<lambda>_.
      seq [yield (typescript_header year name),
           if truthy frontend
           then yield (''import { Event } from '' @ sq @ ''vs/base/common/event'' @ sq @ '';'' @ nl)
           else Inr [],
           yield typescript_imports,
           seq (map (\<lambda>source.
             if \<not> truthy source then Inr []
             else seq [objectVisitor [] source (typescript_object_callback contracts),
                       enumVisitor [] source typescript_enum_callback]) contracts),
           seq (map (\<lambda>source.
             if \<not> truthy source then Inr []
             else typescript_type_aliases contracts backend source) [backend, frontend]),
           if truthy frontend then typescript_events contracts name frontend else Inr [],
           yield (''export class Positron'' @ snakeCaseToSentenceCase name @
                  ''Comm extends PositronBaseComm {'' @ nl),
           yield (tab @ ''constructor(instance: IRuntimeClientInstance<any, any>) {'' @ nl),
           yield (tab @ tab @ ''super(instance);'' @ nl),
           if truthy frontend
           then ebind (js_get frontend ''methods'') (\<lambda>methods.
                ebind (iter methods) (\<lambda>ms. seq (map typescript_emitter_init ms)))
           else Inr [],
           yield (tab @ ''}'' @ nl @ nl),
           if truthy backend
           then ebind (js_get backend ''methods'') (\<lambda>methods.
                ebind (iter methods) (\<lambda>ms. seq (map (typescript_method contracts) ms)))
           else Inr [],
           if truthy frontend
           then seq [yield nl,
                     ebind (js_get frontend ''methods'') (\<lambda>methods.
                     ebind (iter methods) (\<lambda>ms. seq (map typescript_event_declaration ms)))]
           else Inr [],
           yield (''}'' @ nl @ nl)]))"

section \<open>The orchestrator\<close>

text \<open>
  What the run reads from its surroundings: the directory of the script, its listing,
  which paths exist, the outcome of reading and parsing a JSON file, the year, whether
  a path can be written, and the formatter (\<open>python3 -m black\<close>), which rewrites the
  text of a file or fails.
\<close>

record environment =
  dirname :: string
  commsFiles :: "string list"
  existsSync :: "string \<Rightarrow> bool"
  readJSON :: "string \<Rightarrow> error + jsval"
  year :: nat
  writable :: "string \<Rightarrow> bool"
  black :: "string \<Rightarrow> error + string"
  black_installed :: bool

text \<open>
  What the run changes: the files it writes (path to text), the standard output, and the
  list \<open>comms\<close> of the processed names.
\<close>

record state =
  files :: "string \<rightharpoonup> string"
  stdout :: "string list"
  comms :: "string list"

text \<open>\<open>path.join(dir, file)\<close>; the normal form of the path is not computed.\<close>

definition path_join :: "string \<Rightarrow> string \<Rightarrow> string" where
  "path_join dir file = dir @ ''/'' @ file"

definition tsOutputDir :: "environment \<Rightarrow> string" where
  "tsOutputDir env =
     dirname env @ ''/../../src/vs/workbench/services/languageRuntime/common''"

definition rustOutputDir :: "environment \<Rightarrow> string" where
  "rustOutputDir env = dirname env @ ''/../../../amalthea/crates/amalthea/src/comm''"

definition pythonOutputDir :: "environment \<Rightarrow> string" where
  "pythonOutputDir env =
     dirname env @ ''/../../extensions/positron-python/pythonFiles/positron''"

definition tsOutputFile :: "environment \<Rightarrow> string \<Rightarrow> string" where
  "tsOutputFile env name =
     path_join (tsOutputDir env) (''positron'' @ snakeCaseToSentenceCase name @ ''Comm.ts'')"

definition rustOutputFile :: "environment \<Rightarrow> string \<Rightarrow> string" where
  "rustOutputFile env name = path_join (rustOutputDir env) (name @ ''_comm.rs'')"

definition pythonOutputFile :: "environment \<Rightarrow> string \<Rightarrow> string" where
  "pythonOutputFile env name = path_join (pythonOutputDir env) (name @ ''_comm.py'')"

definition frontendFile :: "environment \<Rightarrow> string \<Rightarrow> string" where
  "frontendFile env name = path_join (dirname env) (name @ ''-frontend-openrpc.json'')"

definition backendFile :: "environment \<Rightarrow> string \<Rightarrow> string" where
  "backendFile env name = path_join (dirname env) (name @ ''-backend-openrpc.json'')"

text \<open>\<open>file.endsWith('.json')\<close> and \<open>file.replace(/\.json$/, '')\<close>.\<close>

definition endsWith_json :: "string \<Rightarrow> bool" where
  "endsWith_json file = (length file \<ge> 5 \<and> drop (length file - 5) file = ''.json'')"

definition strip_json :: "string \<Rightarrow> string" where
  "strip_json file = (if endsWith_json file then take (length file - 5) file else file)"

text \<open>A contract of the pair: \<open>null\<close> when its file does not exist.\<close>

definition load_contract :: "environment \<Rightarrow> string \<Rightarrow> error + jsval" where
  "load_contract env path = (if existsSync env path then readJSON env path else Inr JNull)"

text \<open>
  \<open>writeFileSync\<close> followed by \<open>console.log\<close>. A step of the run returns the error
  that ended it, if any, and the state it reached.
\<close>

definition write_and_log :: "environment \<Rightarrow> string \<Rightarrow> string \<Rightarrow> state \<Rightarrow> error option \<times> state" where
  "write_and_log env path text st =
     (if writable env path
      then (None, st\<lparr>files := (files st)(path \<mapsto> text), stdout := stdout st @ [text]\<rparr>)
      else (Some IOError, st))"

text \<open>
  One target: the generator is run to its end and its chunks are concatenated; only then
  is the file written.
\<close>

definition emit_target ::
  "environment \<Rightarrow> string \<Rightarrow> error + string list \<Rightarrow> state \<Rightarrow> error option \<times> state" where
  "emit_target env path generated st =
     (case generated of
        Inl e \<Rightarrow> (Some e, st)
      | Inr chunks \<Rightarrow> write_and_log env path (concat chunks) st)"

text \<open>\<open>execSync(`python3 -m black ${pythonOutputFile}`)\<close> on the file just written.\<close>

definition run_black :: "environment \<Rightarrow> string \<Rightarrow> state \<Rightarrow> error option \<times> state" where
  "run_black env path st =
     (case files st path of
        None \<Rightarrow> (Some FormatterFailed, st)
      | Some text \<Rightarrow>
          (case black env text of
             Inl e \<Rightarrow> (Some e, st)
           | Inr formatted \<Rightarrow> (None, st\<lparr>files := (files st)(path \<mapsto> formatted)\<rparr>)))"

text \<open>Sequencing of steps: the first error ends the run in the state reached.\<close>

definition and_then ::
  "error option \<times> state \<Rightarrow> (state \<Rightarrow> error option \<times> state) \<Rightarrow> error option \<times> state" where
  "and_then r f = (case r of (Some e, st) \<Rightarrow> (Some e, st) | (None, st) \<Rightarrow> f st)"

text \<open>The three targets of one Comm, in the order of the source.\<close>

definition write_comm ::
  "environment \<Rightarrow> string \<Rightarrow> jsval \<Rightarrow> jsval \<Rightarrow> state \<Rightarrow> error option \<times> state" where
  "write_comm env name frontend backend st =
     and_then (emit_target env (tsOutputFile env name)
                 (createTypescriptComm (year env)
                    (readJSON env (path_join (dirname env) (name @ ''.json'')))
                    name frontend backend) st) (\<lambda>st.
     and_then (emit_target env (rustOutputFile env name)
                 (createRustComm (year env) name frontend backend) st) (\<lambda>st.
     and_then (emit_target env (pythonOutputFile env name)
                 (createPythonComm (year env) name frontend backend) st) (\<lambda>st.
     and_then (run_black env (pythonOutputFile env name) st) (\<lambda>st.
       (None, st\<lparr>comms := comms st @ [name]\<rparr>)))))"

text \<open>The body of the loop of \<open>createCommInterface\<close> for one directory entry.\<close>

definition process_file :: "environment \<Rightarrow> string \<Rightarrow> state \<Rightarrow> error option \<times> state" where
  "process_file env file st =
     (if \<not> endsWith_json file then (None, st)
      else
        (let name = strip_json file in
         if existsSync env (frontendFile env name) \<or> existsSync env (backendFile env name)
         then
           (case load_contract env (frontendFile env name) of
              Inl e \<Rightarrow> (Some e, st)
            | Inr frontend \<Rightarrow>
                (case load_contract env (backendFile env name) of
                   Inl e \<Rightarrow> (Some e, st)
                 | Inr backend \<Rightarrow> write_comm env name frontend backend st))
         else (None, st)))"

fun process_files :: "environment \<Rightarrow> string list \<Rightarrow> state \<Rightarrow> error option \<times> state" where
  "process_files env [] st = (None, st)"
| "process_files env (file # rest) st =
     and_then (process_file env file st) (process_files env rest)"

definition createCommInterface :: "environment \<Rightarrow> state \<Rightarrow> error option \<times> state" where
  "createCommInterface env st = process_files env (commsFiles env) st"

text \<open>
  The script: the two prerequisite checks print a message and exit with code 1 before
  any Comm is processed.
\<close>

datatype exit = Exit1 string | Ran "error option"

definition main :: "environment \<Rightarrow> state \<Rightarrow> exit \<times> state" where
  "main env st =
     (if \<not> existsSync env (rustOutputDir env)
      then (Exit1 (''The amalthea repo must be cloned into the same parent directory as the '' @
                   ''Positron rep, so that Rust output types can be written.''), st)
      else if \<not> black_installed env
      then (Exit1 (''The Python module '' @ dq @ ''black'' @ dq @
                   '' must be installed to run this script; it is '' @
                   ''required to properly format the Python output.''), st)
      else (case createCommInterface env st of (r, st') \<Rightarrow> (Ran r, st')))"

section \<open>Definitions used to state the properties\<close>

text \<open>
  A callback that yields the pair it is called with: the visit of a contract with it is
  the list of the nodes found, each with the naming context it was found in.
\<close>

definition visited :: "jsval list \<Rightarrow> jsval \<Rightarrow> error + (jsval list \<times> jsval) list" where
  "visited context node = Inr [(context, node)]"




text \<open>An object schema, as the result of a method declares it.\<close>

definition example_object :: jsval where
  "example_object =
     JObj [(''type'', JStr ''object''), (''name'', JStr ''ping_reply''),
           (''description'', JStr ''The reply''),
           (''properties'', JObj [(''message'',
              JObj [(''type'', JStr ''string''), (''description'', JStr ''The message'')])]),
           (''required'', JArr [JStr ''message''])]"



text \<open>
  A run over a directory that holds the metadata file and the backend contract of one
  Comm, \<open>ping\<close>, with every output path writable and the formatter leaving the text as
  it is.
\<close>

definition ping_environment :: "jsval \<Rightarrow> environment" where
  "ping_environment backend =
     \<lparr> dirname = ''/comms'',
       commsFiles = [''ping-backend-openrpc.json'', ''ping.json''],
       existsSync = (\<lambda>p. p = ''/comms/ping-backend-openrpc.json'' \<or> p = ''/comms/ping.json''
                           \<or> p = ''/comms/../../../amalthea/crates/amalthea/src/comm''),
       readJSON = (\<lambda>p. if p = ''/comms/ping-backend-openrpc.json'' then Inr backend
                        else if p = ''/comms/ping.json'' then Inr (JObj [])
                        else Inl IOError),
       year = 2024,
       writable = (\<lambda>p. True),
       black = (\<lambda>text. Inr text),
       black_installed = True \<rparr>"

definition empty_state :: state where
  "empty_state = \<lparr> files = Map.empty, stdout = [], comms = [] \<rparr>"

text \<open>A backend whose only method has a summary and no description.\<close>

definition summary_only_backend :: jsval where
  "summary_only_backend =
     JObj [(''methods'', JArr [
        JObj [(''name'', JStr ''do_ping''),
              (''summary'', JStr ''Ping the backend''),
              (''params'', JArr []),
              (''result'', JObj [])]])]"

text \<open>
  A backend whose method is described, with a parameter that has no description and a
  result object that has none either.
\<close>

definition undescribed_backend :: jsval where
  "undescribed_backend =
     JObj [(''methods'', JArr [
        JObj [(''name'', JStr ''do_ping''),
              (''summary'', JStr ''Ping the backend''),
              (''description'', JStr ''Send a ping and wait for the reply''),
              (''params'', JArr [
                 JObj [(''name'', JStr ''value''),
                       (''schema'', JObj [(''type'', JStr ''string'')])]]),
              (''result'', JObj [(''schema'',
                 JObj [(''type'', JStr ''object''),
                       (''name'', JStr ''ping_reply''),
                       (''properties'', JObj [(''message'',
                          JObj [(''type'', JStr ''string''),
                                (''description'', JStr ''The reply'')])]),
                       (''required'', JArr [JStr ''message''])])])]])]"

text \<open>
  The scenario of the enumeration: the method \<open>set_mode\<close> with the parameter \<open>mode\<close>,
  whose schema is the enumeration of the strings \<open>a\<close> and \<open>b\<close>; the method returns the
  object above.
\<close>

definition set_mode_contract :: jsval where
  "set_mode_contract =
     JObj [(''methods'', JArr [
        JObj [(''name'', JStr ''set_mode''),
              (''summary'', JStr ''Set the mode''),
              (''description'', JStr ''Set the mode of operation''),
              (''params'', JArr [
                 JObj [(''name'', JStr ''mode''),
                       (''description'', JStr ''The mode''),
                       (''schema'', JObj [(''type'', JStr ''string''),
                                         (''enum'', JArr [JStr ''a'', JStr ''b''])])]]),
              (''result'', JObj [(''schema'', example_object)])]])]"

text \<open>
  The enumeration \<open>SetModeMode\<close> with the members \<open>a\<close> and \<open>b\<close>, in this order, as a
  TypeScript, a Rust and a Python declaration, each from its first line to its end: the
  closing brace, or the blank lines after the last member of the Python class.
\<close>

definition typescript_set_mode_enum :: string where
  "typescript_set_mode_enum =
     ''export enum SetModeMode {'' @ nl @
     tab @ ''A = '' @ sq @ ''a'' @ sq @ '','' @ nl @
     tab @ ''B = '' @ sq @ ''b'' @ sq @ nl @
     ''}'' @ nl"

definition rust_set_mode_enum :: string where
  "rust_set_mode_enum =
     ''pub enum SetModeMode {'' @ nl @
     tab @ ''#[serde(rename = '' @ dq @ ''a'' @ dq @ '')]'' @ nl @
     tab @ ''A,'' @ nl @
     nl @
     tab @ ''#[serde(rename = '' @ dq @ ''b'' @ dq @ '')]'' @ nl @
     tab @ ''B'' @ nl @
     ''}'' @ nl"

definition python_set_mode_enum :: string where
  "python_set_mode_enum =
     ''class SetModeMode(str, enum.Enum):'' @ nl @
     ''    '' @ dq @ dq @ dq @ nl @
     ''    Possible values for Mode in SetMode'' @ nl @
     ''    '' @ dq @ dq @ dq @ nl @
     nl @
     ''    A = '' @ dq @ ''a'' @ dq @ nl @
     nl @
     ''    B = '' @ dq @ ''b'' @ dq @ nl @
     nl @
     nl"

text \<open>
  A backend in which a field of the result object has no description.
\<close>

definition undescribed_field :: jsval where
  "undescribed_field = JObj [(''type'', JStr ''string'')]"

definition undescribed_reply :: jsval where
  "undescribed_reply =
     JObj [(''type'', JStr ''object''),
           (''name'', JStr ''ping_reply''),
           (''description'', JStr ''The reply''),
           (''properties'', JObj [(''message'', undescribed_field)]),
           (''required'', JArr [JStr ''message''])]"

definition undescribed_field_backend :: jsval where
  "undescribed_field_backend =
     JObj [(''methods'', JArr [
        JObj [(''name'', JStr ''do_ping''),
              (''summary'', JStr ''Ping the backend''),
              (''description'', JStr ''Send a ping and wait for the reply''),
              (''params'', JArr []),
              (''result'', JObj [(''schema'', undescribed_reply)])]])]"



text \<open>
  The scenario with the schema of the parameter reduced to its enumeration, and the
  scenario with a parameter that carries an \<open>enum\<close> member of its own.
\<close>

definition bare_enum_backend :: jsval where
  "bare_enum_backend =
     JObj [(''methods'', JArr [
        JObj [(''name'', JStr ''set_mode''),
              (''summary'', JStr ''Set the mode''),
              (''description'', JStr ''Set the mode of operation''),
              (''params'', JArr [
                 JObj [(''name'', JStr ''mode''),
                       (''description'', JStr ''The mode''),
                       (''schema'', JObj [(''enum'', JArr [JStr ''a'', JStr ''b''])])]]),
              (''result'', JObj [])]])]"

definition param_enum_backend :: jsval where
  "param_enum_backend =
     JObj [(''methods'', JArr [
        JObj [(''name'', JStr ''set_mode''),
              (''summary'', JStr ''Set the mode''),
              (''description'', JStr ''Set the mode of operation''),
              (''params'', JArr [
                 JObj [(''name'', JStr ''mode''),
                       (''description'', JStr ''The mode''),
                       (''enum'', JArr [JStr ''x'']),
                       (''schema'', JObj [(''type'', JStr ''string''),
                                         (''enum'', JArr [JStr ''a'', JStr ''b''])])]]),
              (''result'', JObj [])]])]"

section \<open>Properties\<close>

subsection \<open>Splitting and joining\<close>

lemma split_on_nonempty: "split_on c s \<noteq> []"
  by (induction s) (auto split: list.splits)

lemma join_split: "join_with [c] (split_on c s) = s"
proof (induction s)
  case Nil
  show ?case by simp
next
  case (Cons x xs)
  obtain w ws where e: "split_on c xs = w # ws"
    using split_on_nonempty[of c xs] by (cases "split_on c xs") auto
  show ?case using Cons e by (cases ws) auto
qed

lemma join_snoc: "xs \<noteq> [] \<Longrightarrow> join_with sep (xs @ [y]) = join_with sep xs @ sep @ y"
  by (induction sep xs rule: join_with.induct) auto

lemma join_cons: "join_with sep (x # ys) = x @ concat (map (\<lambda>w. sep @ w) ys)"
  by (induction ys arbitrary: x) auto

lemma split_hd: "hd (split_on c s) = takeWhile (\<lambda>x. x \<noteq> c) s"
  using split_on_nonempty[of c] by (induction s) (auto split: list.splits)

lemma no_double_space_tl: "no_double_space (x # xs) \<Longrightarrow> no_double_space xs"
  by (cases xs) auto

lemma split_tl_nonempty:
  "no_double_space s \<Longrightarrow> [] \<notin> set (butlast (tl (split_on CHR '' '' s)))"
proof (induction s)
  case Nil
  then show ?case by simp
next
  case (Cons x xs)
  have nd: "no_double_space xs" using Cons.prems by (rule no_double_space_tl)
  obtain w ws where e: "split_on CHR '' '' xs = w # ws"
    using split_on_nonempty[of "CHR '' ''" xs] by (cases "split_on CHR '' '' xs") auto
  have ih: "[] \<notin> set (butlast ws)" using Cons.IH[OF nd] e by simp
  show ?case
  proof (cases "x = CHR '' ''")
    case True
    have w: "w = takeWhile (\<lambda>c. c \<noteq> CHR '' '') xs"
      using split_hd[of "CHR '' ''" xs] e by simp
    have "ws \<noteq> [] \<Longrightarrow> w \<noteq> []"
    proof -
      assume "ws \<noteq> []"
      then have "xs \<noteq> []" using e by auto
      then obtain y ys where xs: "xs = y # ys" by (cases xs) auto
      then have "y \<noteq> CHR '' ''" using Cons.prems True by simp
      then show "w \<noteq> []" using w xs by simp
    qed
    then show ?thesis using True e ih by auto
  next
    case False
    then show ?thesis using e ih by simp
  qed
qed

lemma split_words_nonempty:
  assumes "no_double_space s" and "s = [] \<or> hd s \<noteq> CHR '' ''"
  shows "[] \<notin> set (butlast (split_on CHR '' '' s))"
proof -
  obtain w ws where e: "split_on CHR '' '' s = w # ws"
    using split_on_nonempty[of "CHR '' ''" s] by (cases "split_on CHR '' '' s") auto
  have w: "w = takeWhile (\<lambda>c. c \<noteq> CHR '' '') s"
    using split_hd[of "CHR '' ''" s] e by simp
  have t: "[] \<notin> set (butlast ws)" using split_tl_nonempty[OF assms(1)] e by simp
  have "ws \<noteq> [] \<Longrightarrow> w \<noteq> []"
  proof -
    assume "ws \<noteq> []"
    then have "s \<noteq> []" using e by auto
    then show "w \<noteq> []" using w assms(2) by (cases s) auto
  qed
  then show ?thesis using e t by auto
qed

subsection \<open>Line wrapping\<close>

lemma loop_join:
  "currentLine \<noteq> [] \<or> words = [] \<Longrightarrow> [] \<notin> set (butlast words) \<Longrightarrow>
   join_with '' '' (formatLines_loop lines currentLine words) =
   join_with '' '' (lines @ [currentLine]) @ concat (map (\<lambda>w. '' '' @ w) words)"
proof (induction words arbitrary: lines currentLine)
  case Nil
  then show ?case by simp
next
  case (Cons w ws)
  then have cur: "currentLine \<noteq> []" by simp
  have nxt: "w \<noteq> [] \<or> ws = []" and bl: "[] \<notin> set (butlast ws)"
    using Cons.prems(2) by (auto split: if_splits)
  show ?case
  proof (cases "length currentLine + length w + 1 > 70")
    case True
    then have e: "formatLines_loop lines currentLine (w # ws) =
        formatLines_loop (lines @ [currentLine]) w ws"
      by simp
    have "join_with '' '' (formatLines_loop (lines @ [currentLine]) w ws) =
        join_with '' '' ((lines @ [currentLine]) @ [w]) @ concat (map (\<lambda>w. '' '' @ w) ws)"
      by (rule Cons.IH[OF nxt bl])
    then show ?thesis unfolding e
      using join_snoc[of "lines @ [currentLine]" "'' ''" w] by simp
  next
    case False
    then have e: "formatLines_loop lines currentLine (w # ws) =
        formatLines_loop lines (currentLine @ '' '' @ w) ws"
      using cur by simp
    have "join_with '' '' (formatLines_loop lines (currentLine @ '' '' @ w) ws) =
        join_with '' '' (lines @ [currentLine @ '' '' @ w]) @ concat (map (\<lambda>w. '' '' @ w) ws)"
      by (rule Cons.IH) (use bl in simp_all)
    then show ?thesis unfolding e by (cases "lines = []") (simp_all add: join_snoc)
  qed
qed

lemma formatLines_join:
  assumes "no_double_space s" and "s = [] \<or> hd s \<noteq> CHR '' ''"
    and "length (takeWhile (\<lambda>c. c \<noteq> CHR '' '') s) < 70"
  shows "join_with '' '' (formatLines s) = s"
proof -
  obtain w ws where e: "split_on CHR '' '' s = w # ws"
    using split_on_nonempty[of "CHR '' ''" s] by (cases "split_on CHR '' '' s") auto
  have w: "w = takeWhile (\<lambda>c. c \<noteq> CHR '' '') s"
    using split_hd[of "CHR '' ''" s] e by simp
  have ne: "[] \<notin> set (butlast (w # ws))" using split_words_nonempty[OF assms(1,2)] e by simp
  have first: "formatLines s = formatLines_loop [] w ws"
    using assms(3) w e by (simp add: formatLines_def)
  have c: "w \<noteq> [] \<or> ws = []" using ne by (auto split: if_splits)
  have b: "[] \<notin> set (butlast ws)" using ne by (auto split: if_splits)
  have "join_with '' '' (formatLines s) = join_with '' '' (w # ws)"
    using loop_join[OF c b, of "[]"] first by (simp add: join_cons)
  also have "\<dots> = s" using join_split[of "CHR '' ''" s] e by simp
  finally show ?thesis .
qed

lemma formatComment_lines:
  "formatComment leader comment = concat (map (\<lambda>l. leader @ l @ nl) (formatLines comment))"
proof -
  have "foldl (\<lambda>result line. result @ leader @ line @ nl) acc ls =
        acc @ concat (map (\<lambda>l. leader @ l @ nl) ls)" for acc ls
    by (induction ls arbitrary: acc) auto
  then show ?thesis by (simp add: formatComment_def)
qed

lemma split_no_sep: "w \<in> set (split_on c s) \<Longrightarrow> c \<notin> set w"
proof (induction s arbitrary: w)
  case Nil
  then show ?case by simp
next
  case (Cons x xs)
  obtain v vs where e: "split_on c xs = v # vs"
    using split_on_nonempty[of c xs] by (cases "split_on c xs") auto
  show ?case using Cons e by (auto split: if_splits)
qed

lemma split_single: "c \<notin> set w \<Longrightarrow> split_on c w = [w]"
  by (induction w) auto

lemma split_append: "split_on c (a @ c # b) = split_on c a @ split_on c b"
proof (induction a)
  case Nil
  then show ?case by simp
next
  case (Cons x xs)
  obtain v vs where e: "split_on c xs = v # vs"
    using split_on_nonempty[of c xs] by (cases "split_on c xs") auto
  show ?case using Cons e by auto
qed

lemma words_of_word: "CHR '' '' \<notin> set w \<Longrightarrow> words_of w = (if w = [] then [] else [w])"
  by (simp add: words_of_def split_single)

lemma words_of_append: "words_of (a @ '' '' @ b) = words_of a @ words_of b"
  by (simp add: words_of_def split_append)

lemma loop_words:
  "\<forall>w \<in> set words. CHR '' '' \<notin> set w \<Longrightarrow>
   concat (map words_of (formatLines_loop lines currentLine words)) =
   concat (map words_of lines) @ words_of currentLine @ filter (\<lambda>w. w \<noteq> []) words"
proof (induction words arbitrary: lines currentLine)
  case Nil
  then show ?case by simp
next
  case (Cons w ws)
  have w: "words_of w = (if w = [] then [] else [w])" using Cons.prems by (simp add: words_of_word)
  have ih: "concat (map words_of (formatLines_loop l c ws)) =
     concat (map words_of l) @ words_of c @ filter (\<lambda>w. w \<noteq> []) ws" for l c
    using Cons.IH Cons.prems by simp
  show ?case
  proof (cases "length currentLine + length w + 1 > 70")
    case True
    then show ?thesis using ih w by simp
  next
    case False
    show ?thesis
    proof (cases "currentLine = []")
      case True
      then have "words_of currentLine = []" by (simp add: words_of_def)
      then show ?thesis using False True ih w by simp
    next
      case ne: False
      have "words_of (currentLine @ '' '' @ w) = words_of currentLine @ words_of w"
        by (rule words_of_append)
      then show ?thesis using False ne ih[of lines "currentLine @ '' '' @ w"] w by simp
    qed
  qed
qed

lemma formatLines_words: "concat (map words_of (formatLines s)) = words_of s"
proof -
  have "\<forall>w \<in> set (split_on CHR '' '' s). CHR '' '' \<notin> set w" using split_no_sep by blast
  then show ?thesis using loop_words[of "split_on CHR '' '' s" "[]" "[]"]
    by (simp add: formatLines_def words_of_def)
qed

text \<open>
  C10 (amended). For every string that contains no two consecutive spaces, does not begin
  with a space, and whose first word is shorter than 70 characters, joining the lines
  returned by \<open>formatLines\<close> with single spaces gives back the string. For every string,
  the non-empty words of the lines, in order, are the non-empty words of the string, and
  \<open>formatComment\<close> emits exactly the lines of \<open>formatLines\<close>, each prefixed by the leader
  and ended by a newline.
\<close>

theorem formatLines_preserves_content:
  "(no_double_space s \<and> (s = [] \<or> hd s \<noteq> CHR '' '')
      \<and> length (takeWhile (\<lambda>c. c \<noteq> CHR '' '') s) < 70
     \<longrightarrow> join_with '' '' (formatLines s) = s)
    \<and> concat (map words_of (formatLines s)) = words_of s
    \<and> formatComment leader s = concat (map (\<lambda>l. leader @ l @ nl) (formatLines s))"
  using formatLines_join[of s] formatLines_words[of s] formatComment_lines[of leader s]
  by simp

theorem formatLines_preserves_content_witness:
  "join_with '' '' (formatLines ''wrap me'') = ''wrap me''
    \<and> concat (map words_of (formatLines ''wrap me'')) = words_of ''wrap me''
    \<and> formatComment ''// '' ''wrap me'' =
        concat (map (\<lambda>l. ''// '' @ l @ nl) (formatLines ''wrap me''))"
  using formatLines_preserves_content[of "''wrap me''" "''// ''"] by simp

text \<open>
  C10 as stated fails: a leading space is dropped, and a first word of 70 characters or
  more is preceded by an empty line, so the joined lines differ from the string.
\<close>

theorem formatLines_counterexample:
  "no_double_space '' a'' \<and> join_with '' '' (formatLines '' a'') \<noteq> '' a''
   \<and> no_double_space (replicate 70 CHR ''x'')
   \<and> join_with '' '' (formatLines (replicate 70 CHR ''x'')) \<noteq> replicate 70 CHR ''x''"
  by code_simp

subsection \<open>The naming transformer\<close>

lemma replaceAll_concat:
  "replaceAll c r (concat (map f s)) = concat (map (\<lambda>x. replaceAll c r (f x)) s)"
  by (induction s) (auto simp: replaceAll_def)

lemma replaceAll_map: "replaceAll c r s = concat (map (\<lambda>x. replaceAll c r [x]) s)"
  by (induction s) (auto simp: replaceAll_def)

lemma replace_chain:
  "replaceAll CHR ''>'' ''Gt'' (replaceAll CHR ''<'' ''Lt''
     (replaceAll CHR ''!'' ''Not'' (replaceAll CHR ''='' ''Eq'' name))) =
   concat (map spec_substitute name)"
proof -
  have 1: "replaceAll CHR ''='' ''Eq'' name =
      concat (map (\<lambda>x. replaceAll CHR ''='' ''Eq'' [x]) name)"
    by (rule replaceAll_map)
  have p: "replaceAll CHR ''>'' ''Gt'' (replaceAll CHR ''<'' ''Lt''
       (replaceAll CHR ''!'' ''Not'' (replaceAll CHR ''='' ''Eq'' [x]))) = spec_substitute x" for x
    by (simp add: replaceAll_def spec_substitute_def)
  show ?thesis
    by (subst 1) (simp only: replaceAll_concat p)
qed

lemma is_lower_not_special: "is_lower b \<Longrightarrow> spec_substitute b = [b] \<and> b \<noteq> CHR ''_''"
  by (auto simp: is_lower_def lowers_def spec_substitute_def)

lemma toUpperCase_not_underscore: "c \<noteq> CHR ''_'' \<Longrightarrow> toUpperCase c \<noteq> CHR ''_''"
  by (auto simp: toUpperCase_def lowers_def uppers_def split: option.splits if_splits)

lemma toUpperCase_id: "\<not> is_lower c \<Longrightarrow> toUpperCase c = c"
  by (auto simp: toUpperCase_def is_lower_def lowers_def uppers_def
      split: option.splits if_splits)

lemma spec_substitute_nonempty: "spec_substitute b \<noteq> []"
  by (auto simp: spec_substitute_def)

lemma snake_ok_tl: "snake_ok (a # s) \<Longrightarrow> snake_ok s"
  by (cases s) auto

lemma replaceUnderscoreLower_spec: "snake_ok t \<Longrightarrow> replaceUnderscoreLower t = spec_strip False t"
proof (induction t rule: replaceUnderscoreLower.induct)
  case (1 a b s)
  show ?case
  proof (cases "a = CHR ''_''")
    case True
    then have lb: "is_lower b" using "1.prems" by simp
    then have nb: "b \<noteq> CHR ''_''" using is_lower_not_special by blast
    have "snake_ok s" using "1.prems" snake_ok_tl by blast
    then show ?thesis using "1.IH"(1) True lb nb by simp
  next
    case False
    then show ?thesis using "1.IH"(2) "1.prems" by simp
  qed
qed simp_all

lemma spec_strip_no_underscore: "CHR ''_'' \<notin> set (spec_strip up t)"
proof (induction t arbitrary: up)
  case Nil
  then show ?case by simp
next
  case (Cons c t)
  show ?case
  proof (cases "c = CHR ''_''")
    case True
    then show ?thesis using Cons by simp
  next
    case False
    then have "toUpperCase c \<noteq> CHR ''_''" by (rule toUpperCase_not_underscore)
    then show ?thesis using False Cons by auto
  qed
qed

lemma replaceUnderscoreLower_keeps:
  "\<not> snake_ok t \<Longrightarrow> CHR ''_'' \<in> set (replaceUnderscoreLower t)"
proof (induction t rule: replaceUnderscoreLower.induct)
  case (1 a b s)
  show ?case
  proof (cases "a = CHR ''_'' \<and> is_lower b")
    case True
    then have "\<not> snake_ok s" using "1.prems" is_lower_not_special[of b] by (cases s) auto
    then show ?thesis using "1.IH"(1) True by simp
  next
    case False
    then show ?thesis using "1.IH"(2) "1.prems" by auto
  qed
qed simp_all

lemma snake_ok_substitute: "snake_ok (concat (map spec_substitute s)) = snake_ok s"
proof (induction s rule: snake_ok.induct)
  case 1
  then show ?case by simp
next
  case (2 c)
  then show ?case by (auto simp: spec_substitute_def)
next
  case (3 a b s)
  obtain u t where ub: "spec_substitute b = u # t"
    using spec_substitute_nonempty[of b] by (cases "spec_substitute b") auto
  have lu: "is_lower u = is_lower b"
    using ub by (auto simp: spec_substitute_def is_lower_def lowers_def split: if_splits)
  have "snake_ok (spec_substitute a @ u # t @ concat (map spec_substitute s)) =
        ((a = CHR ''_'' \<longrightarrow> is_lower u) \<and> snake_ok (u # t @ concat (map spec_substitute s)))"
    by (auto simp: spec_substitute_def is_lower_def lowers_def)
  then show ?case using 3 ub lu by simp
qed

lemma camel_agrees_iff: "(snakeCaseToCamelCase s = spec_toCamel s) = snake_ok s"
proof
  assume "snake_ok s"
  then show "snakeCaseToCamelCase s = spec_toCamel s"
    by (simp add: snakeCaseToCamelCase_def replace_chain spec_toCamel_def
        replaceUnderscoreLower_spec snake_ok_substitute)
next
  assume e: "snakeCaseToCamelCase s = spec_toCamel s"
  show "snake_ok s"
  proof (rule ccontr)
    assume "\<not> snake_ok s"
    then have "CHR ''_'' \<in> set (snakeCaseToCamelCase s)"
      by (simp add: snakeCaseToCamelCase_def replace_chain replaceUnderscoreLower_keeps
          snake_ok_substitute)
    then show False using e spec_strip_no_underscore by (simp add: spec_toCamel_def)
  qed
qed

lemma pascal_agrees: "snake_ok s \<Longrightarrow> snakeCaseToSentenceCase s = spec_toPascal s"
  using camel_agrees_iff[of s] toUpperCase_id
  by (auto simp: snakeCaseToSentenceCase_def spec_toPascal_def split: list.splits)

lemma replaceUnderscoreLower_kept:
  "(case v of [] \<Rightarrow> True | b # s \<Rightarrow> \<not> is_lower b) \<Longrightarrow>
   replaceUnderscoreLower (u @ CHR ''_'' # v) =
     replaceUnderscoreLower u @ CHR ''_'' # replaceUnderscoreLower v"
proof (induction u rule: replaceUnderscoreLower.induct)
  case (1 a b s)
  then show ?case by simp
qed (cases v; auto simp: is_lower_def lowers_def)+

lemma substitute_append:
  "concat (map spec_substitute (u @ CHR ''_'' # v)) =
     concat (map spec_substitute u) @ CHR ''_'' # concat (map spec_substitute v)"
  by (simp add: spec_substitute_def)

lemma substitute_head:
  "(case v of [] \<Rightarrow> True | b # s \<Rightarrow> \<not> is_lower b) \<Longrightarrow>
   (case concat (map spec_substitute v) of [] \<Rightarrow> True | b # s \<Rightarrow> \<not> is_lower b)"
  by (cases v) (auto simp: spec_substitute_def is_lower_def lowers_def)

lemma camel_keeps:
  assumes "case v of [] \<Rightarrow> True | b # s \<Rightarrow> \<not> is_lower b"
  shows "snakeCaseToCamelCase (u @ CHR ''_'' # v) =
     snakeCaseToCamelCase u @ CHR ''_'' # snakeCaseToCamelCase v"
  unfolding snakeCaseToCamelCase_def replace_chain substitute_append
  by (rule replaceUnderscoreLower_kept[OF substitute_head[OF assms]])

lemma pascal_keeps:
  assumes "case v of [] \<Rightarrow> True | b # s \<Rightarrow> \<not> is_lower b"
  shows "snakeCaseToSentenceCase (u @ CHR ''_'' # v) =
     snakeCaseToSentenceCase u @ CHR ''_'' # snakeCaseToCamelCase v"
proof (cases "snakeCaseToCamelCase u")
  case Nil
  then show ?thesis
    by (simp add: snakeCaseToSentenceCase_def camel_keeps[OF assms] is_lower_def lowers_def)
next
  case (Cons c s)
  then show ?thesis
    by (simp add: snakeCaseToSentenceCase_def camel_keeps[OF assms])
qed

text \<open>
  C9 (amended). For every input string in which each underscore is directly followed by
  a lower-case letter \<open>a-z\<close>, \<open>snakeCaseToCamelCase\<close> replaces the four comparison
  characters by \<open>Eq\<close>, \<open>Not\<close>, \<open>Lt\<close>, \<open>Gt\<close> and then removes each underscore while
  upper-casing the letter after it, and \<open>snakeCaseToSentenceCase\<close> additionally
  upper-cases the first letter. On exactly these strings the camel-case function agrees
  with the transformer as the specification words it. An underscore that is not directly
  followed by a lower-case letter is kept: in every string \<open>u _ v\<close> where \<open>v\<close> is empty or
  begins with another character, the result is the result for \<open>u\<close>, the underscore, and
  the camel-case result for \<open>v\<close>. Both functions are total.
\<close>

theorem naming_transformer_pipeline:
  "(snakeCaseToCamelCase name = spec_toCamel name) = snake_ok name
   \<and> (snake_ok name \<longrightarrow> snakeCaseToSentenceCase name = spec_toPascal name)
   \<and> ((case v of [] \<Rightarrow> True | b # s \<Rightarrow> \<not> is_lower b) \<longrightarrow>
        snakeCaseToCamelCase (u @ CHR ''_'' # v) =
          snakeCaseToCamelCase u @ CHR ''_'' # snakeCaseToCamelCase v
        \<and> snakeCaseToSentenceCase (u @ CHR ''_'' # v) =
          snakeCaseToSentenceCase u @ CHR ''_'' # snakeCaseToCamelCase v)"
  using camel_agrees_iff[of name] pascal_agrees[of name] camel_keeps[of v u] pascal_keeps[of v u]
  by simp

theorem naming_transformer_pipeline_witness:
  "snake_ok ''set_mode<='' \<and> snakeCaseToCamelCase ''set_mode<='' = spec_toCamel ''set_mode<=''
   \<and> snakeCaseToSentenceCase ''set_mode<='' = spec_toPascal ''set_mode<=''
   \<and> spec_toPascal ''set_mode<='' = ''SetModeLtEq''
   \<and> snakeCaseToCamelCase (''get_id'' @ CHR ''_'' # ''2'') = ''getId_2''
   \<and> snakeCaseToSentenceCase (''get_id'' @ CHR ''_'' # ''2'') = ''GetId_2''"
  using naming_transformer_pipeline[of "''set_mode<=''" "''2''" "''get_id''"]
  by (simp add: is_lower_def lowers_def uppers_def spec_toPascal_def spec_toCamel_def
      spec_substitute_def toUpperCase_def snakeCaseToSentenceCase_def snakeCaseToCamelCase_def
      replaceAll_def)

text \<open>
  C9 as stated fails: an underscore followed by an upper-case letter, a digit or another
  underscore is not removed.
\<close>

theorem naming_transformer_counterexample:
  "snakeCaseToCamelCase ''get_Value'' = ''get_Value''
   \<and> spec_toCamel ''get_Value'' = ''getValue''
   \<and> snakeCaseToCamelCase ''a__b_1'' = ''a_B_1''"
  by (simp add: snakeCaseToCamelCase_def replaceAll_def is_lower_def lowers_def uppers_def
      toUpperCase_def spec_toCamel_def spec_substitute_def)

subsection \<open>The type deriver\<close>

lemma deriveType_array:
  "js_get schema ''type'' = Inr (JStr ''array'') \<Longrightarrow>
      deriveType contracts typeMap key schema =
        ebind (js_get schema ''items'') (\<lambda>items.
        ebind (deriveType contracts typeMap key items) (\<lambda>t.
          Inr (typeMap_get typeMap ''array-begin'' @ t @ typeMap_get typeMap ''array-end'')))"
  by (subst deriveType.simps) (simp add: ebind_def)

lemma deriveType_ref:
  "js_get schema ''type'' = Inr ty \<Longrightarrow> ty \<noteq> JStr ''array'' \<Longrightarrow>
   js_get schema ''$ref'' = Inr ref \<Longrightarrow> truthy ref \<Longrightarrow>
      deriveType contracts typeMap key schema = parseRef ref contracts"
  by (subst deriveType.simps) simp

lemma deriveType_object:
  "js_get schema ''type'' = Inr (JStr ''object'') \<Longrightarrow>
   js_get schema ''$ref'' = Inr ref \<Longrightarrow> \<not> truthy ref \<Longrightarrow>
   js_get schema ''name'' = Inr name \<Longrightarrow>
      deriveType contracts typeMap key schema =
        (if truthy name then toPascal name else toPascal key)"
  by (subst deriveType.simps) simp

lemma deriveType_primitive:
  "js_get schema ''type'' = Inr ty \<Longrightarrow> ty \<noteq> JStr ''array'' \<Longrightarrow> ty \<noteq> JStr ''object'' \<Longrightarrow>
   js_get schema ''$ref'' = Inr ref \<Longrightarrow> \<not> truthy ref \<Longrightarrow>
      deriveType contracts typeMap key schema =
        (if \<exists>t. ty = JStr t \<and> t \<in> set (map fst typeMap)
         then Inr (typeMap_get typeMap (toString ty))
         else Inl (UnknownType (toString ty)))"
  by (subst deriveType.simps) (cases ty; simp)

text \<open>
  C5. \<open>deriveType\<close> applies four rules in this order. (1) A schema whose \<open>type\<close> is
  \<open>array\<close> yields the array-open token of the table, the derived type of its \<open>items\<close>,
  and the array-close token. (2) Otherwise a schema with a \<open>$ref\<close> (one that the test
  \<open>if (schema.$ref)\<close> accepts) yields what \<open>parseRef\<close> resolves it to. (3) Otherwise a
  schema whose \<open>type\<close> is \<open>object\<close> yields the Pascal-cased \<open>name\<close> if it has one, and
  the Pascal-cased key otherwise. (4) Otherwise the \<open>type\<close> is looked up in the type
  table, and a type that is not a key of the table throws the error
  \<open>Unknown type\<close>. An error of a step is the error of the whole derivation.
\<close>

theorem deriveType_precedence:
  "(js_get schema ''type'' = Inr (JStr ''array'') \<longrightarrow>
      deriveType contracts typeMap key schema =
        ebind (js_get schema ''items'') (\<lambda>items.
        ebind (deriveType contracts typeMap key items) (\<lambda>t.
          Inr (typeMap_get typeMap ''array-begin'' @ t @ typeMap_get typeMap ''array-end''))))
   \<and> (js_get schema ''type'' = Inr ty \<and> ty \<noteq> JStr ''array''
        \<and> js_get schema ''$ref'' = Inr ref \<and> truthy ref \<longrightarrow>
      deriveType contracts typeMap key schema = parseRef ref contracts)
   \<and> (js_get schema ''type'' = Inr (JStr ''object'')
        \<and> js_get schema ''$ref'' = Inr ref \<and> \<not> truthy ref
        \<and> js_get schema ''name'' = Inr name \<longrightarrow>
      deriveType contracts typeMap key schema =
        (if truthy name then toPascal name else toPascal key))
   \<and> (js_get schema ''type'' = Inr ty \<and> ty \<noteq> JStr ''array'' \<and> ty \<noteq> JStr ''object''
        \<and> js_get schema ''$ref'' = Inr ref \<and> \<not> truthy ref \<longrightarrow>
      deriveType contracts typeMap key schema =
        (if \<exists>t. ty = JStr t \<and> t \<in> set (map fst typeMap)
         then Inr (typeMap_get typeMap (toString ty))
         else Inl (UnknownType (toString ty))))"
  using deriveType_array[of schema contracts typeMap key]
    deriveType_ref[of schema ty ref contracts typeMap key]
    deriveType_object[of schema ref name contracts typeMap key]
    deriveType_primitive[of schema ty ref contracts typeMap key]
  by blast

theorem deriveType_precedence_witness:
  "deriveType [JObj [(''a'', JObj [(''some_type'', JNull)])]] RustTypeMap (JStr ''the_key'')
     (JObj [(''type'', JStr ''array''), (''items'', JObj [(''type'', JStr ''integer'')])])
     = Inr ''Vec<i64>''
   \<and> deriveType [JObj [(''a'', JObj [(''some_type'', JNull)])]] RustTypeMap (JStr ''the_key'')
     (JObj [(''type'', JStr ''object''), (''$ref'', JStr ''#/a/some_type'')])
     = Inr ''SomeType''
   \<and> deriveType [JObj [(''a'', JObj [(''some_type'', JNull)])]] RustTypeMap (JStr ''the_key'')
     (JObj [(''type'', JStr ''object'')])
     = Inr ''TheKey''
   \<and> deriveType [JObj [(''a'', JObj [(''some_type'', JNull)])]] RustTypeMap (JStr ''the_key'')
     (JObj [(''type'', JStr ''object''), (''name'', JStr ''my_name'')])
     = Inr ''MyName''
   \<and> deriveType [JObj [(''a'', JObj [(''some_type'', JNull)])]] RustTypeMap (JStr ''the_key'')
     (JObj [(''type'', JStr ''integer'')])
     = Inr ''i64''
   \<and> deriveType [JObj [(''a'', JObj [(''some_type'', JNull)])]] RustTypeMap (JStr ''the_key'')
     (JObj [(''type'', JStr ''float'')])
     = Inl (UnknownType ''float'')"
  using
    deriveType_precedence[of
      "JObj [(''type'', JStr ''array''), (''items'', JObj [(''type'', JStr ''integer'')])]"
      "[JObj [(''a'', JObj [(''some_type'', JNull)])]]" RustTypeMap "JStr ''the_key''"
      "JStr ''array''" JUndef JUndef]
    deriveType_precedence[of
      "JObj [(''type'', JStr ''object''), (''$ref'', JStr ''#/a/some_type'')]"
      "[JObj [(''a'', JObj [(''some_type'', JNull)])]]" RustTypeMap "JStr ''the_key''"
      "JStr ''object''" "JStr ''#/a/some_type''" JUndef]
    deriveType_precedence[of
      "JObj [(''type'', JStr ''object'')]"
      "[JObj [(''a'', JObj [(''some_type'', JNull)])]]" RustTypeMap "JStr ''the_key''"
      "JStr ''object''" JUndef JUndef]
    deriveType_precedence[of
      "JObj [(''type'', JStr ''object''), (''name'', JStr ''my_name'')]"
      "[JObj [(''a'', JObj [(''some_type'', JNull)])]]" RustTypeMap "JStr ''the_key''"
      "JStr ''object''" JUndef "JStr ''my_name''"]
    deriveType_precedence[of
      "JObj [(''type'', JStr ''integer'')]"
      "[JObj [(''a'', JObj [(''some_type'', JNull)])]]" RustTypeMap "JStr ''the_key''"
      "JStr ''integer''" JUndef JUndef]
    deriveType_precedence[of
      "JObj [(''type'', JStr ''float'')]"
      "[JObj [(''a'', JObj [(''some_type'', JNull)])]]" RustTypeMap "JStr ''the_key''"
      "JStr ''float''" JUndef JUndef]
  by (simp add: lookup_def ebind_def RustTypeMap_def typeMap_get_def parseRefFromContract_def
      snakeCaseToSentenceCase_def snakeCaseToCamelCase_def replaceAll_def is_lower_def
      lowers_def uppers_def toUpperCase_def)

subsection \<open>The schema visitors\<close>

text \<open>
  C8 (amended). The two visitors follow different disciplines. The enum visitor, on an
  object that is not itself an enumeration: when the object has a (truthy) \<open>name\<close>, that
  name is pushed for every key, \<open>properties\<close> and \<open>params\<close> included; otherwise
  \<open>properties\<close> and \<open>params\<close> leave the context unchanged and every other key,
  \<open>schema\<close> included, is pushed. The object visitor, on an object whose \<open>type\<close> is not
  \<open>object\<close>: \<open>schema\<close> leaves the context unchanged and every other key,
  \<open>properties\<close> and \<open>params\<close> included, is pushed, a \<open>name\<close> never; on an object
  whose \<open>type\<close> is \<open>object\<close>, the callback is called and then only \<open>properties\<close> is
  visited, in the unchanged context.
\<close>

theorem visitor_naming_context:
  "(\<not> truthy (lookup kvs ''enum'') \<longrightarrow>
      enumVisitor context (JObj kvs) callback =
        seq (map (\<lambda>(key, v).
               enumVisitor
                 (if truthy (lookup kvs ''name'') then lookup kvs ''name'' # context
                  else if key = ''properties'' \<or> key = ''params'' then context
                  else JStr key # context) v callback) kvs))
   \<and> (lookup kvs ''type'' \<noteq> JStr ''object'' \<longrightarrow>
      objectVisitor context (JObj kvs) callback' =
        seq (map (\<lambda>(key, v).
               objectVisitor (if key = ''schema'' then context else JStr key # context)
                 v callback') kvs))
   \<and> (lookup kvs ''type'' = JStr ''object'' \<longrightarrow>
      objectVisitor context (JObj kvs) callback' =
        seq [callback' context (JObj kvs),
             objectVisitor context (lookup kvs ''properties'') callback'])"
proof -
  have 1: "(\<lambda>(key, v).
             if truthy (lookup kvs ''name'')
             then enumVisitor (lookup kvs ''name'' # context) v callback
             else if key = ''properties'' \<or> key = ''params''
             then enumVisitor context v callback
             else enumVisitor (JStr key # context) v callback) =
           (\<lambda>(key, v).
               enumVisitor
                 (if truthy (lookup kvs ''name'') then lookup kvs ''name'' # context
                  else if key = ''properties'' \<or> key = ''params'' then context
                  else JStr key # context) v callback)"
    by (rule ext) (simp split: prod.splits)
  have 2: "(\<lambda>(key, v).
             if key = ''schema''
             then objectVisitor context v callback'
             else objectVisitor (JStr key # context) v callback') =
           (\<lambda>(key, v).
               objectVisitor (if key = ''schema'' then context else JStr key # context)
                 v callback')"
    by (rule ext) (simp split: prod.splits)
  show ?thesis by (simp add: 1 2)
qed

theorem visitor_naming_context_witness:
  "enumVisitor [JStr ''outer''] (JObj [(''name'', JStr ''do_it''), (''params'',
       JArr [JObj [(''schema'', JObj [(''enum'', JArr [JStr ''a''])])]])]) visited
     = Inr [([JStr ''schema'', JStr ''do_it'', JStr ''outer''], JArr [JStr ''a''])]
   \<and> objectVisitor [JStr ''outer''] (JObj [(''result'', JObj [(''schema'',
       JObj [(''type'', JStr ''object''), (''properties'', JObj [])])])]) visited
     = Inr [([JStr ''result'', JStr ''outer''],
             JObj [(''type'', JStr ''object''), (''properties'', JObj [])])]"
  using
    visitor_naming_context[of
      "[(''name'', JStr ''do_it''), (''params'',
          JArr [JObj [(''schema'', JObj [(''enum'', JArr [JStr ''a''])])]])]"
      "[JStr ''outer'']" visited visited]
    visitor_naming_context[of
      "[(''result'', JObj [(''schema'',
          JObj [(''type'', JStr ''object''), (''properties'', JObj [])])])]"
      "[JStr ''outer'']" visited visited]
    visitor_naming_context[of
      "[(''type'', JStr ''object''), (''properties'', JObj [])]"
      "[JStr ''result'', JStr ''outer'']" visited visited]
  by (simp add: lookup_def visited_def)

text \<open>
  C8 as stated fails. In the enum visitor \<open>schema\<close> is pushed like any other key. In the
  object visitor \<open>params\<close> is pushed, and the \<open>name\<close> of a node is not pushed: its
  keys are.
\<close>

theorem visitor_naming_context_counterexample:
  "enumVisitor [] (JObj [(''schema'', JObj [(''enum'', JArr [JStr ''a''])])]) visited
     = Inr [([JStr ''schema''], JArr [JStr ''a''])]
   \<and> objectVisitor [] (JObj [(''params'',
         JObj [(''type'', JStr ''object''), (''properties'', JObj [])])]) visited
     = Inr [([JStr ''params''], JObj [(''type'', JStr ''object''), (''properties'', JObj [])])]
   \<and> objectVisitor [] (JObj [(''name'', JStr ''thing''), (''value'',
         JObj [(''type'', JStr ''object''), (''properties'', JObj [])])]) visited
     = Inr [([JStr ''value''], JObj [(''type'', JStr ''object''), (''properties'', JObj [])])]"
  by (simp add: lookup_def visited_def)

subsection \<open>The reference resolver\<close>

lemma walk_skips_root_markers:
  "walk parts target = walk (filter (\<lambda>p. p \<noteq> ''#'') parts) target"
  by (induction parts arbitrary: target) (auto split: sum.splits option.splits)















subsection \<open>Sequences of generator steps\<close>

lemma seq_Inr_mem:
  "seq ms = Inr out \<Longrightarrow> m \<in> set ms \<Longrightarrow> \<exists>xs. m = Inr xs \<and> set xs \<subseteq> set out"
proof (induction ms arbitrary: out)
  case Nil
  then show ?case by simp
next
  case (Cons a ms)
  from Cons.prems(1) obtain xs ys where a: "a = Inr xs" and r: "seq ms = Inr ys"
    and out: "out = xs @ ys"
    by (auto split: sum.splits)
  show ?case
  proof (cases "m = a")
    case True
    then show ?thesis using a out by auto
  next
    case False
    then have "m \<in> set ms" using Cons.prems(2) by simp
    then obtain zs where "m = Inr zs" and "set zs \<subseteq> set ys" using Cons.IH[OF r] by blast
    then show ?thesis using out by auto
  qed
qed

lemma seq_at0: "seq (m # ms) = Inr out \<Longrightarrow> \<exists>xs. m = Inr xs \<and> set xs \<subseteq> set out"
  using seq_Inr_mem[of "m # ms" out m] by simp

lemma seq_at1: "seq (m0 # m # ms) = Inr out \<Longrightarrow> \<exists>xs. m = Inr xs \<and> set xs \<subseteq> set out"
  using seq_Inr_mem[of "m0 # m # ms" out m] by simp

lemma seq_at2:
  "seq (m0 # m1 # m # ms) = Inr out \<Longrightarrow> \<exists>xs. m = Inr xs \<and> set xs \<subseteq> set out"
  using seq_Inr_mem[of "m0 # m1 # m # ms" out m] by simp

lemma seq_at3:
  "seq (m0 # m1 # m2 # m # ms) = Inr out \<Longrightarrow> \<exists>xs. m = Inr xs \<and> set xs \<subseteq> set out"
  using seq_Inr_mem[of "m0 # m1 # m2 # m # ms" out m] by simp

lemma seq_Inl_mem: "m \<in> set ms \<Longrightarrow> m = Inl e \<Longrightarrow> \<exists>e'. seq ms = Inl e'"
  using seq_Inr_mem[of ms _ m] by (cases "seq ms") auto

lemma ebind_Inr: "ebind m f = Inr y \<Longrightarrow> \<exists>x. m = Inr x \<and> f x = Inr y"
  by (cases m) (auto simp: ebind_def)

lemma yield_mem: "yield s = Inr xs \<Longrightarrow> s \<in> set xs"
  by (auto simp: yield_def)

lemma if_else_Inr: "(if b then Inl e else m) = Inr out \<Longrightarrow> m = Inr out"
  by (simp split: if_splits)



lemma seq_map_Inr: "seq (map f xs) = Inr out \<Longrightarrow> x \<in> set xs \<Longrightarrow> \<exists>ys. f x = Inr ys"
  using seq_Inr_mem[of "map f xs" out "f x"] by auto

lemma seq_map_set:
  "seq (map f xs) = Inr out \<Longrightarrow> n \<in> set out \<Longrightarrow>
   \<exists>x ys. x \<in> set xs \<and> f x = Inr ys \<and> n \<in> set ys"
proof (induction xs arbitrary: out)
  case Nil
  then show ?case by simp
next
  case (Cons a xs)
  from Cons.prems(1) obtain ys zs where a: "f a = Inr ys" and r: "seq (map f xs) = Inr zs"
    and out: "out = ys @ zs"
    by (auto split: sum.splits)
  show ?case
  proof (cases "n \<in> set ys")
    case True
    then show ?thesis using a by auto
  next
    case False
    then have "n \<in> set zs" using Cons.prems(2) out by simp
    from Cons.IH[OF r this] show ?thesis by auto
  qed
qed

lemma seq_at4:
  "seq (m0 # m1 # m2 # m3 # m # ms) = Inr out \<Longrightarrow> \<exists>xs. m = Inr xs \<and> set xs \<subseteq> set out"
  using seq_Inr_mem[of "m0 # m1 # m2 # m3 # m # ms" out m] by simp

lemma seq_at5:
  "seq (m0 # m1 # m2 # m3 # m4 # m # ms) = Inr out \<Longrightarrow> \<exists>xs. m = Inr xs \<and> set xs \<subseteq> set out"
  using seq_Inr_mem[of "m0 # m1 # m2 # m3 # m4 # m # ms" out m] by simp

lemma seq_pair:
  "seq [a, b] = Inr out \<Longrightarrow> \<exists>xs ys. a = Inr xs \<and> b = Inr ys \<and> out = xs @ ys"
  by (auto split: sum.splits)

lemma sublist_trans: "sublist xs ys \<Longrightarrow> sublist ys zs \<Longrightarrow> sublist xs zs"
  by (rule sublist_order.order_trans)

lemma sublist_concat: "sublist xs ys \<Longrightarrow> sublist (concat xs) (concat ys)"
proof -
  assume "sublist xs ys"
  then obtain ps ss where "ys = ps @ xs @ ss" by (auto simp: sublist_def)
  then have "concat ys = concat ps @ concat xs @ concat ss" by simp
  then show ?thesis unfolding sublist_def by blast
qed

lemma seq_Inr_sublist:
  "seq ms = Inr out \<Longrightarrow> m \<in> set ms \<Longrightarrow> \<exists>xs. m = Inr xs \<and> sublist xs out"
proof (induction ms arbitrary: out)
  case Nil
  then show ?case by simp
next
  case (Cons a ms)
  from Cons.prems(1) obtain xs ys where a: "a = Inr xs" and r: "seq ms = Inr ys"
    and out: "out = xs @ ys"
    by (auto split: sum.splits)
  show ?case
  proof (cases "m = a")
    case True
    then show ?thesis using a out by auto
  next
    case False
    then have "m \<in> set ms" using Cons.prems(2) by simp
    then obtain zs where "m = Inr zs" and "sublist zs ys" using Cons.IH[OF r] by blast
    then show ?thesis using out by (auto simp: sublist_append)
  qed
qed

lemma seq_sub0: "seq (m # ms) = Inr out \<Longrightarrow> \<exists>xs. m = Inr xs \<and> sublist xs out"
  using seq_Inr_sublist[of "m # ms" out m] by simp

lemma seq_sub1: "seq (m0 # m # ms) = Inr out \<Longrightarrow> \<exists>xs. m = Inr xs \<and> sublist xs out"
  using seq_Inr_sublist[of "m0 # m # ms" out m] by simp

lemma seq_sub2:
  "seq (m0 # m1 # m # ms) = Inr out \<Longrightarrow> \<exists>xs. m = Inr xs \<and> sublist xs out"
  using seq_Inr_sublist[of "m0 # m1 # m # ms" out m] by simp

lemma seq_sub3:
  "seq (m0 # m1 # m2 # m # ms) = Inr out \<Longrightarrow> \<exists>xs. m = Inr xs \<and> sublist xs out"
  using seq_Inr_sublist[of "m0 # m1 # m2 # m # ms" out m] by simp


lemma seq_map_sublist:
  "seq (map f xs) = Inr out \<Longrightarrow> x \<in> set xs \<Longrightarrow> \<exists>ys. f x = Inr ys \<and> sublist ys out"
  using seq_Inr_sublist[of "map f xs" out "f x"] by auto

lemma ebind_const: "ebind m (\<lambda>_. k) = Inr y \<Longrightarrow> k = Inr y"
  by (cases m) (auto simp: ebind_def)

subsection \<open>What the emitters visit\<close>

lemma objectVisitor_callbacks:
  fixes callback :: "jsval list \<Rightarrow> jsval \<Rightarrow> error + 'a list"
  shows "objectVisitor ctx contract callback = Inr out \<Longrightarrow>
    objectVisitor ctx contract visited = Inr nodes \<Longrightarrow> node \<in> set nodes \<Longrightarrow>
    \<exists>xs. callback (fst node) (snd node) = Inr xs \<and> sublist xs out"
proof (induction ctx contract callback arbitrary: out nodes
    rule: objectVisitor.induct)
  case (6 ctx items callback)
  from "6.prems"(1) have s1: "seq (map (\<lambda>item. objectVisitor ctx item callback) items) = Inr out"
    by simp
  from "6.prems"(2) have s2: "seq (map (\<lambda>item. objectVisitor ctx item visited) items) = Inr nodes"
    by simp
  from seq_map_set[OF s2 "6.prems"(3)] obtain item ns where i: "item \<in> set items"
    and v: "objectVisitor ctx item visited = Inr ns" and n: "node \<in> set ns"
    by blast
  from seq_map_sublist[OF s1 i] obtain ys where c: "objectVisitor ctx item callback = Inr ys"
    and sub: "sublist ys out"
    by blast
  from "6.IH"[OF i c v n] obtain xs where "callback (fst node) (snd node) = Inr xs"
    and "sublist xs ys"
    by blast
  then show ?case using sub sublist_trans by blast
next
  case (7 ctx kvs callback)
  show ?case
  proof (cases "lookup kvs ''type'' = JStr ''object''")
    case True
    from "7.prems"(1) True have "seq [callback ctx (JObj kvs),
        objectVisitor ctx (lookup kvs ''properties'') callback] = Inr out"
      by simp
    from seq_pair[OF this] obtain xs ys where c: "callback ctx (JObj kvs) = Inr xs"
      and r: "objectVisitor ctx (lookup kvs ''properties'') callback = Inr ys"
      and out: "out = xs @ ys"
      by blast
    from "7.prems"(2) True have "seq [visited ctx (JObj kvs),
        objectVisitor ctx (lookup kvs ''properties'') visited] = Inr nodes"
      by simp
    from seq_pair[OF this] obtain ns where
      v: "objectVisitor ctx (lookup kvs ''properties'') visited = Inr ns"
      and nodes: "nodes = [(ctx, JObj kvs)] @ ns"
      by (auto simp: visited_def)
    show ?thesis
    proof (cases "node = (ctx, JObj kvs)")
      case True
      then show ?thesis using c out by auto
    next
      case False
      then have "node \<in> set ns" using "7.prems"(3) nodes by simp
      from "7.IH"(1)[OF True r v this] obtain zs where
        "callback (fst node) (snd node) = Inr zs" and "sublist zs ys"
        by blast
      then show ?thesis using out by (auto simp: sublist_append)
    qed
  next
    case False
    let ?f = "\<lambda>cb (key, v).
             if key = ''schema''
             then objectVisitor ctx v cb
             else objectVisitor (JStr key # ctx) v cb"
    from "7.prems"(1) False have s1: "seq (map (?f callback) kvs) = Inr out"
      by simp
    from "7.prems"(2) False have s2: "seq (map (?f visited) kvs) = Inr nodes"
      by simp
    from seq_map_set[OF s2 "7.prems"(3)] obtain x ns where x: "x \<in> set kvs"
      and v: "?f visited x = Inr ns" and n: "node \<in> set ns"
      by blast
    from seq_map_sublist[OF s1 x] obtain ys where c: "?f callback x = Inr ys"
      and sub: "sublist ys out"
      by blast
    obtain key val where kv: "(key, val) = x" by (cases x) auto
    have "\<exists>xs. callback (fst node) (snd node) = Inr xs \<and> sublist xs ys"
    proof (cases "key = ''schema''")
      case True
      have c': "objectVisitor ctx val callback = Inr ys" using c kv True by auto
      have v': "objectVisitor ctx val visited = Inr ns" using v kv True by auto
      show ?thesis by (rule "7.IH"(2)[OF False x kv True c' v' n])
    next
      case ne: False
      have c': "objectVisitor (JStr key # ctx) val callback = Inr ys" using c kv ne by auto
      have v': "objectVisitor (JStr key # ctx) val visited = Inr ns" using v kv ne by auto
      show ?thesis by (rule "7.IH"(3)[OF False x kv ne c' v' n])
    qed
    then show ?thesis using sub sublist_trans by blast
  qed
qed simp_all


lemma createTypescriptComm_visits:
  assumes "createTypescriptComm y metadata name frontend backend = Inr out"
    and "source = backend \<or> source = frontend" and "truthy source"
  shows "\<exists>xs ys.
      objectVisitor [] source (typescript_object_callback [backend, frontend]) = Inr xs
    \<and> sublist xs out
    \<and> enumVisitor [] source typescript_enum_callback = Inr ys \<and> sublist ys out"
proof -
  from seq_sub3[OF ebind_const[OF assms(1)[unfolded createTypescriptComm_def Let_def]]]
  obtain zs where m: "seq (map (\<lambda>source.
             if \<not> truthy source then Inr []
             else seq [objectVisitor [] source (typescript_object_callback [backend, frontend]),
                       enumVisitor [] source typescript_enum_callback]) [backend, frontend])
       = Inr zs"
    and sub: "sublist zs out"
    by blast
  have "source \<in> set [backend, frontend]" using assms(2) by auto
  from seq_map_sublist[OF m this] obtain ws where
    "(if \<not> truthy source then Inr []
      else seq [objectVisitor [] source (typescript_object_callback [backend, frontend]),
                enumVisitor [] source typescript_enum_callback]) = Inr ws"
    and sub2: "sublist ws zs"
    by blast
  then have s: "seq [objectVisitor [] source (typescript_object_callback [backend, frontend]),
                enumVisitor [] source typescript_enum_callback] = Inr ws"
    by (simp only: assms(3) not_True_eq_False if_False)
  from seq_sub0[OF s] obtain xs where
    x: "objectVisitor [] source (typescript_object_callback [backend, frontend]) = Inr xs"
    and sx: "sublist xs ws"
    by blast
  from seq_sub1[OF s] obtain ys where
    y: "enumVisitor [] source typescript_enum_callback = Inr ys"
    and sy: "sublist ys ws"
    by blast
  show ?thesis
    by (intro exI conjI)
       (rule x, rule sublist_trans[OF sx sublist_trans[OF sub2 sub]],
        rule y, rule sublist_trans[OF sy sublist_trans[OF sub2 sub]])
qed

lemma createRustComm_visits:
  assumes "createRustComm y name frontend backend = Inr out"
    and "source = backend \<or> source = frontend" and "truthy source"
  shows "\<exists>as xs ys.
      rust_type_aliases [backend, frontend] backend source = Inr as \<and> sublist as out
    \<and> objectVisitor [] source (rust_object_callback [backend, frontend]) = Inr xs
    \<and> sublist xs out
    \<and> enumVisitor [] source rust_enum_callback = Inr ys \<and> sublist ys out"
proof -
  from seq_sub1[OF assms(1)[unfolded createRustComm_def Let_def]]
  obtain zs where m: "seq (map (\<lambda>source.
             if \<not> truthy source then Inr []
             else seq [rust_type_aliases [backend, frontend] backend source,
                       objectVisitor [] source (rust_object_callback [backend, frontend]),
                       enumVisitor [] source rust_enum_callback]) [backend, frontend])
       = Inr zs"
    and sub: "sublist zs out"
    by blast
  have "source \<in> set [backend, frontend]" using assms(2) by auto
  from seq_map_sublist[OF m this] obtain ws where
    "(if \<not> truthy source then Inr []
      else seq [rust_type_aliases [backend, frontend] backend source,
                objectVisitor [] source (rust_object_callback [backend, frontend]),
                enumVisitor [] source rust_enum_callback]) = Inr ws"
    and sub2: "sublist ws zs"
    by blast
  then have s: "seq [rust_type_aliases [backend, frontend] backend source,
                objectVisitor [] source (rust_object_callback [backend, frontend]),
                enumVisitor [] source rust_enum_callback] = Inr ws"
    by (simp only: assms(3) not_True_eq_False if_False)
  from seq_sub0[OF s] obtain as where
    a: "rust_type_aliases [backend, frontend] backend source = Inr as"
    and sa: "sublist as ws"
    by blast
  from seq_sub1[OF s] obtain xs where
    x: "objectVisitor [] source (rust_object_callback [backend, frontend]) = Inr xs"
    and sx: "sublist xs ws"
    by blast
  from seq_sub2[OF s] obtain ys where
    y: "enumVisitor [] source rust_enum_callback = Inr ys"
    and sy: "sublist ys ws"
    by blast
  show ?thesis
    by (intro exI conjI)
       (rule a, rule sublist_trans[OF sa sublist_trans[OF sub2 sub]],
        rule x, rule sublist_trans[OF sx sublist_trans[OF sub2 sub]],
        rule y, rule sublist_trans[OF sy sublist_trans[OF sub2 sub]])
qed

lemma createPythonComm_visits:
  assumes "createPythonComm y name frontend backend = Inr out"
    and "source = backend \<or> source = frontend" and "truthy source"
  shows "\<exists>xs ys.
      objectVisitor [] source (python_object_callback [backend, frontend]) = Inr xs
    \<and> sublist xs out
    \<and> enumVisitor [] source python_enum_callback = Inr ys \<and> sublist ys out"
proof -
  from seq_sub1[OF assms(1)[unfolded createPythonComm_def Let_def]]
  obtain zs where m: "seq (map (\<lambda>source.
             if \<not> truthy source then Inr []
             else seq [objectVisitor [] source (python_object_callback [backend, frontend]),
                       enumVisitor [] source python_enum_callback]) [backend, frontend])
       = Inr zs"
    and sub: "sublist zs out"
    by blast
  have "source \<in> set [backend, frontend]" using assms(2) by auto
  from seq_map_sublist[OF m this] obtain ws where
    "(if \<not> truthy source then Inr []
      else seq [objectVisitor [] source (python_object_callback [backend, frontend]),
                enumVisitor [] source python_enum_callback]) = Inr ws"
    and sub2: "sublist ws zs"
    by blast
  then have s: "seq [objectVisitor [] source (python_object_callback [backend, frontend]),
                enumVisitor [] source python_enum_callback] = Inr ws"
    by (simp only: assms(3) not_True_eq_False if_False)
  from seq_sub0[OF s] obtain xs where
    x: "objectVisitor [] source (python_object_callback [backend, frontend]) = Inr xs"
    and sx: "sublist xs ws"
    by blast
  from seq_sub1[OF s] obtain ys where
    y: "enumVisitor [] source python_enum_callback = Inr ys"
    and sy: "sublist ys ws"
    by blast
  show ?thesis
    by (intro exI conjI)
       (rule x, rule sublist_trans[OF sx sublist_trans[OF sub2 sub]],
        rule y, rule sublist_trans[OF sy sublist_trans[OF sub2 sub]])
qed

subsection \<open>Identifiers across the targets\<close>




lemma enum_name_parts:
  assumes "ebind (toPascal (context_at context 1)) (\<lambda>a.
          ebind (toPascal (context_at context 0)) (\<lambda>b. yield (f a b))) = Inr xs"
  shows "\<exists>a b. toPascal (context_at context 1) = Inr a \<and> toPascal (context_at context 0) = Inr b
           \<and> f a b \<in> set xs"
proof -
  from ebind_Inr[OF assms] obtain a where a: "toPascal (context_at context 1) = Inr a"
    and 1: "ebind (toPascal (context_at context 0)) (\<lambda>b. yield (f a b)) = Inr xs"
    by blast
  from ebind_Inr[OF 1] obtain b where b: "toPascal (context_at context 0) = Inr b"
    and y: "yield (f a b) = Inr xs"
    by blast
  show ?thesis
    by (intro exI conjI) (rule a, rule b, rule yield_mem[OF y])
qed

lemma typescript_enum_declares:
  assumes "typescript_enum_callback context vals = Inr out"
  shows "\<exists>a b. toPascal (context_at context 1) = Inr a \<and> toPascal (context_at context 0) = Inr b
           \<and> ''export enum '' @ a @ b @ '' {'' @ nl \<in> set out"
proof -
  from seq_at3[OF assms[unfolded typescript_enum_callback_def]]
  obtain xs where s: "ebind (toPascal (context_at context 1)) (\<lambda>a.
          ebind (toPascal (context_at context 0)) (\<lambda>b.
            yield (''export enum '' @ a @ b @ '' {'' @ nl))) = Inr xs"
    and sub: "set xs \<subseteq> set out"
    by blast
  from enum_name_parts[of "context" "\<lambda>a b. ''export enum '' @ a @ b @ '' {'' @ nl" xs, OF s]
  obtain a b where a: "toPascal (context_at context 1) = Inr a"
    and b: "toPascal (context_at context 0) = Inr b"
    and m: "''export enum '' @ a @ b @ '' {'' @ nl \<in> set xs"
    by blast
  show ?thesis
    by (intro exI conjI) (rule a, rule b, rule subsetD[OF sub m])
qed

lemma rust_enum_declares:
  assumes "rust_enum_callback context vals = Inr out"
  shows "\<exists>a b. toPascal (context_at context 1) = Inr a \<and> toPascal (context_at context 0) = Inr b
           \<and> ''pub enum '' @ a @ b @ '' {'' @ nl \<in> set out"
proof -
  from seq_at2[OF assms[unfolded rust_enum_callback_def]]
  obtain xs where s: "ebind (toPascal (context_at context 1)) (\<lambda>a.
          ebind (toPascal (context_at context 0)) (\<lambda>b.
            yield (''pub enum '' @ a @ b @ '' {'' @ nl))) = Inr xs"
    and sub: "set xs \<subseteq> set out"
    by blast
  from enum_name_parts[of "context" "\<lambda>a b. ''pub enum '' @ a @ b @ '' {'' @ nl" xs, OF s]
  obtain a b where a: "toPascal (context_at context 1) = Inr a"
    and b: "toPascal (context_at context 0) = Inr b"
    and m: "''pub enum '' @ a @ b @ '' {'' @ nl \<in> set xs"
    by blast
  show ?thesis
    by (intro exI conjI) (rule a, rule b, rule subsetD[OF sub m])
qed

lemma python_enum_declares:
  assumes "python_enum_callback context vals = Inr out"
  shows "\<exists>a b. toPascal (context_at context 1) = Inr a \<and> toPascal (context_at context 0) = Inr b
           \<and> ''class '' @ a \<in> set out \<and> b @ ''(str, enum.Enum):'' @ nl \<in> set out"
proof -
  from seq_at1[OF assms[unfolded python_enum_callback_def]]
  obtain xs where 1: "ebind (toPascal (context_at context 1)) (\<lambda>a. yield (''class '' @ a)) = Inr xs"
    and sub1: "set xs \<subseteq> set out"
    by blast
  from seq_at2[OF assms[unfolded python_enum_callback_def]]
  obtain ys where 2: "ebind (toPascal (context_at context 0))
      (\<lambda>b. yield (b @ ''(str, enum.Enum):'' @ nl)) = Inr ys"
    and sub2: "set ys \<subseteq> set out"
    by blast
  from ebind_Inr[OF 1] obtain a where a: "toPascal (context_at context 1) = Inr a"
    and x: "yield (''class '' @ a) = Inr xs"
    by blast
  from ebind_Inr[OF 2] obtain b where b: "toPascal (context_at context 0) = Inr b"
    and y: "yield (b @ ''(str, enum.Enum):'' @ nl) = Inr ys"
    by blast
  show ?thesis
    by (intro exI conjI)
       (rule a, rule b, rule subsetD[OF sub1 yield_mem[OF x]],
        rule subsetD[OF sub2 yield_mem[OF y]])
qed












lemma set_mode_typescript_runs:
  "createTypescriptComm 2024 (Inr (JObj [])) ''mode'' JNull set_mode_contract =
     Inr (projr (createTypescriptComm 2024 (Inr (JObj [])) ''mode'' JNull set_mode_contract))"
  by code_simp

lemma set_mode_rust_runs:
  "createRustComm 2024 ''mode'' JNull set_mode_contract =
     Inr (projr (createRustComm 2024 ''mode'' JNull set_mode_contract))"
  by code_simp

lemma set_mode_python_runs:
  "createPythonComm 2024 ''mode'' JNull set_mode_contract =
     Inr (projr (createPythonComm 2024 ''mode'' JNull set_mode_contract))"
  by code_simp




subsection \<open>Shared type aliases\<close>

lemma ebind_Inr_eq: "ebind (Inr x) f = f x"
  by (simp add: ebind_def)























subsection \<open>The three targets of a Comm\<close>

lemma output_paths_distinct:
  "tsOutputFile env name \<noteq> rustOutputFile env name"
  "tsOutputFile env name \<noteq> pythonOutputFile env name"
  "rustOutputFile env name \<noteq> pythonOutputFile env name"
  by (simp_all add: tsOutputFile_def rustOutputFile_def pythonOutputFile_def path_join_def
      tsOutputDir_def rustOutputDir_def pythonOutputDir_def)

lemma process_file_loaded:
  assumes "endsWith_json file" and "name = strip_json file"
    and "existsSync env (frontendFile env name) \<or> existsSync env (backendFile env name)"
    and "load_contract env (frontendFile env name) = Inr frontend"
    and "load_contract env (backendFile env name) = Inr backend"
  shows "process_file env file st = write_comm env name frontend backend st"
  using assms by (auto simp: process_file_def Let_def)

lemma write_comm_typescript_fails:
  assumes "createTypescriptComm (year env)
             (readJSON env (path_join (dirname env) (name @ ''.json''))) name frontend backend
           = Inl e"
  shows "write_comm env name frontend backend st = (Some e, st)"
  using assms by (simp add: write_comm_def emit_target_def and_then_def)

lemma write_comm_rust_fails:
  assumes "createTypescriptComm (year env)
             (readJSON env (path_join (dirname env) (name @ ''.json''))) name frontend backend
           = Inr t"
    and "writable env (tsOutputFile env name)"
    and "createRustComm (year env) name frontend backend = Inl e"
  shows "fst (write_comm env name frontend backend st) = Some e
    \<and> files (snd (write_comm env name frontend backend st)) =
        (files st)(tsOutputFile env name \<mapsto> concat t)"
  using assms
  by (simp add: write_comm_def emit_target_def and_then_def write_and_log_def)

lemma write_comm_python_fails:
  assumes "createTypescriptComm (year env)
             (readJSON env (path_join (dirname env) (name @ ''.json''))) name frontend backend
           = Inr t"
    and "writable env (tsOutputFile env name)"
    and "createRustComm (year env) name frontend backend = Inr r"
    and "writable env (rustOutputFile env name)"
    and "createPythonComm (year env) name frontend backend = Inl e"
  shows "fst (write_comm env name frontend backend st) = Some e
    \<and> files (snd (write_comm env name frontend backend st)) =
        (files st)(tsOutputFile env name \<mapsto> concat t, rustOutputFile env name \<mapsto> concat r)"
  using assms
  by (simp add: write_comm_def emit_target_def and_then_def write_and_log_def)

lemma write_comm_succeeds:
  assumes "fst (write_comm env name frontend backend st) = None"
  shows "\<exists>t r p f.
      createTypescriptComm (year env)
        (readJSON env (path_join (dirname env) (name @ ''.json''))) name frontend backend = Inr t
    \<and> createRustComm (year env) name frontend backend = Inr r
    \<and> createPythonComm (year env) name frontend backend = Inr p
    \<and> black env (concat p) = Inr f
    \<and> files (snd (write_comm env name frontend backend st)) =
        (files st)(tsOutputFile env name \<mapsto> concat t, rustOutputFile env name \<mapsto> concat r,
                   pythonOutputFile env name \<mapsto> f)"
  using assms
  by (auto simp: write_comm_def emit_target_def and_then_def write_and_log_def run_black_def
      split: sum.splits if_splits)

text \<open>
  C1 (amended). Output is atomic per target, not per Comm. For every Comm processed in a
  run, the text of a target is generated completely before the file of that target is
  written, and the targets follow each other in the order TypeScript, Rust, Python. If
  TypeScript generation fails, no output file is created or modified. If Rust
  generation fails, the TypeScript file has been written and nothing else; if Python
  generation fails, the TypeScript and Rust files have been written and nothing else.
  The Comm is processed without error only if the three generations succeed, and the
  three files then hold the generated texts, the Python one as the formatter left it. The
  three output paths are different.
\<close>

theorem per_target_atomicity:
  assumes "endsWith_json file" and "name = strip_json file"
    and "existsSync env (frontendFile env name) \<or> existsSync env (backendFile env name)"
    and "load_contract env (frontendFile env name) = Inr frontend"
    and "load_contract env (backendFile env name) = Inr backend"
    and "ts = createTypescriptComm (year env)
                (readJSON env (path_join (dirname env) (name @ ''.json''))) name frontend backend"
    and "rs = createRustComm (year env) name frontend backend"
    and "py = createPythonComm (year env) name frontend backend"
  shows "(ts = Inl e \<longrightarrow> process_file env file st = (Some e, st))
    \<and> (ts = Inr t \<and> writable env (tsOutputFile env name) \<and> rs = Inl e \<longrightarrow>
         fst (process_file env file st) = Some e
         \<and> files (snd (process_file env file st)) =
             (files st)(tsOutputFile env name \<mapsto> concat t))
    \<and> (ts = Inr t \<and> writable env (tsOutputFile env name)
         \<and> rs = Inr r \<and> writable env (rustOutputFile env name) \<and> py = Inl e \<longrightarrow>
         fst (process_file env file st) = Some e
         \<and> files (snd (process_file env file st)) =
             (files st)(tsOutputFile env name \<mapsto> concat t,
                        rustOutputFile env name \<mapsto> concat r))
    \<and> (fst (process_file env file st) = None \<longrightarrow>
         (\<exists>t r p f. ts = Inr t \<and> rs = Inr r \<and> py = Inr p \<and> black env (concat p) = Inr f
            \<and> files (snd (process_file env file st)) =
                (files st)(tsOutputFile env name \<mapsto> concat t,
                           rustOutputFile env name \<mapsto> concat r,
                           pythonOutputFile env name \<mapsto> f)))
    \<and> tsOutputFile env name \<noteq> rustOutputFile env name
    \<and> tsOutputFile env name \<noteq> pythonOutputFile env name
    \<and> rustOutputFile env name \<noteq> pythonOutputFile env name"
proof -
  have p: "process_file env file st = write_comm env name frontend backend st"
    by (rule process_file_loaded[OF assms(1-5)])
  show ?thesis
    unfolding p assms(6-8)
    using write_comm_typescript_fails[of env name frontend backend e st]
      write_comm_rust_fails[of env name frontend backend t e st]
      write_comm_python_fails[of env name frontend backend t r e st]
      write_comm_succeeds[of env name frontend backend st]
      output_paths_distinct[of env name]
    by blast
qed

lemma ping_file:
  "endsWith_json ''ping.json''"
  "''ping'' = strip_json ''ping.json''"
  by (simp_all add: endsWith_json_def strip_json_def)

lemma ping_environment_loads:
  "existsSync (ping_environment backend) (frontendFile (ping_environment backend) ''ping'')
   \<or> existsSync (ping_environment backend) (backendFile (ping_environment backend) ''ping'')"
  "load_contract (ping_environment backend) (frontendFile (ping_environment backend) ''ping'')
     = Inr JNull"
  "load_contract (ping_environment backend) (backendFile (ping_environment backend) ''ping'')
     = Inr backend"
  "year (ping_environment backend) = 2024"
  "readJSON (ping_environment backend)
     (path_join (dirname (ping_environment backend)) (''ping'' @ ''.json'')) = Inr (JObj [])"
  "writable (ping_environment backend) path"
  by (simp_all add: ping_environment_def load_contract_def frontendFile_def backendFile_def
      path_join_def)

lemma summary_only_typescript:
  "createTypescriptComm 2024 (Inr (JObj [])) ''ping'' JNull summary_only_backend =
     Inr (projr (createTypescriptComm 2024 (Inr (JObj [])) ''ping'' JNull summary_only_backend))"
  by code_simp

lemma summary_only_rust:
  "createRustComm 2024 ''ping'' JNull summary_only_backend =
     Inr (projr (createRustComm 2024 ''ping'' JNull summary_only_backend))"
  by code_simp

lemma summary_only_python:
  "createPythonComm 2024 ''ping'' JNull summary_only_backend = Inl (NoDescription ''do_ping'')"
  by code_simp

theorem per_target_atomicity_witness:
  "fst (process_file (ping_environment summary_only_backend) ''ping.json'' empty_state)
     = Some (NoDescription ''do_ping'')
   \<and> files (snd (process_file (ping_environment summary_only_backend) ''ping.json'' empty_state))
     = (files empty_state)
         (tsOutputFile (ping_environment summary_only_backend) ''ping'' \<mapsto>
            concat (projr (createTypescriptComm 2024 (Inr (JObj [])) ''ping'' JNull
                             summary_only_backend)),
          rustOutputFile (ping_environment summary_only_backend) ''ping'' \<mapsto>
            concat (projr (createRustComm 2024 ''ping'' JNull summary_only_backend)))"
proof -
  let ?env = "ping_environment summary_only_backend"
  note l = ping_environment_loads[of summary_only_backend]
  have ts: "Inr (projr (createTypescriptComm 2024 (Inr (JObj [])) ''ping'' JNull
                          summary_only_backend))
      = createTypescriptComm (year ?env)
          (readJSON ?env (path_join (dirname ?env) (''ping'' @ ''.json'')))
          ''ping'' JNull summary_only_backend"
    unfolding l(4,5) by (rule summary_only_typescript[symmetric])
  have rs: "Inr (projr (createRustComm 2024 ''ping'' JNull summary_only_backend))
      = createRustComm (year ?env) ''ping'' JNull summary_only_backend"
    unfolding l(4) by (rule summary_only_rust[symmetric])
  have py: "Inl (NoDescription ''do_ping'')
      = createPythonComm (year ?env) ''ping'' JNull summary_only_backend"
    unfolding l(4) by (rule summary_only_python[symmetric])
  note t = per_target_atomicity[OF ping_file l(1-3) ts rs py,
      where t = "projr (createTypescriptComm 2024 (Inr (JObj [])) ''ping'' JNull
                          summary_only_backend)"
        and e = "NoDescription ''do_ping''"
        and r = "projr (createRustComm 2024 ''ping'' JNull summary_only_backend)"
        and st = empty_state]
  from t[THEN conjunct2, THEN conjunct2, THEN conjunct1] l(6) show ?thesis
    by simp
qed

text \<open>
  C1 as stated fails. The only method of the backend has a summary and no description:
  TypeScript and Rust generation succeed and their files are written, then Python
  generation throws, and the run ends with two of the three files of the Comm created.
\<close>

theorem per_target_atomicity_counterexample:
  "(case createCommInterface (ping_environment summary_only_backend) empty_state of
      (r, st) \<Rightarrow>
        r = Some (NoDescription ''do_ping'')
        \<and> files st (tsOutputFile (ping_environment summary_only_backend) ''ping'') \<noteq> None
        \<and> files st (rustOutputFile (ping_environment summary_only_backend) ''ping'') \<noteq> None
        \<and> files st (pythonOutputFile (ping_environment summary_only_backend) ''ping'') = None)
   \<and> files empty_state (tsOutputFile (ping_environment summary_only_backend) ''ping'') = None
   \<and> files empty_state (rustOutputFile (ping_environment summary_only_backend) ''ping'') = None"
  by code_simp

subsection \<open>Missing descriptions\<close>

lemma typescript_field_undescribed:
  "js_get schema ''description'' = Inr d \<Longrightarrow> \<not> truthy d \<Longrightarrow>
   typescript_field contracts name required (p, schema)
     = Inl (NoDescription (toString name @ ''.'' @ p))"
  by (simp add: typescript_field_def ebind_def)

lemma createTypescriptInterface_undescribed:
  assumes "entries properties = Inr kvs" and "(p, schema) \<in> set kvs"
    and "js_get schema ''description'' = Inr d" and "\<not> truthy d"
  shows "\<exists>e. createTypescriptInterface contracts name description properties required ap = Inl e"
proof (cases "createTypescriptInterface contracts name description properties required ap")
  case (Inl e)
  then show ?thesis by blast
next
  case (Inr out)
  from seq_at5[OF if_else_Inr[OF Inr[unfolded createTypescriptInterface_def]]]
  obtain xs where "ebind (entries properties) (\<lambda>kvs.
      seq (map (typescript_field contracts name required) kvs)) = Inr xs"
    by blast
  then have "seq (map (typescript_field contracts name required) kvs) = Inr xs"
    by (simp only: assms(1) ebind_Inr_eq)
  from seq_map_Inr[OF this assms(2)]
  obtain ys where "typescript_field contracts name required (p, schema) = Inr ys"
    by blast
  then show ?thesis
    by (simp only: typescript_field_undescribed[OF assms(3,4)] sum.distinct)
qed

lemma typescript_object_callback_undescribed:
  assumes "js_get obj ''properties'' = Inr props" and "entries props = Inr kvs"
    and "(p, schema) \<in> set kvs"
    and "js_get schema ''description'' = Inr d" and "\<not> truthy d"
  shows "\<exists>e. typescript_object_callback contracts ctx obj = Inl e"
proof (cases "typescript_object_callback contracts ctx obj")
  case (Inl e)
  then show ?thesis by blast
next
  case (Inr out)
  from ebind_Inr[OF Inr[unfolded typescript_object_callback_def]]
  obtain n where 1: "ebind (js_get obj ''description'') (\<lambda>d.
     ebind (if truthy d then Inr d
            else ebind (default_description ctx) (\<lambda>t. Inr (JStr t))) (\<lambda>description.
     ebind (js_get obj ''additionalProperties'') (\<lambda>ap.
     ebind (js_get obj ''properties'') (\<lambda>properties.
     ebind (js_get obj ''required'') (\<lambda>required.
       createTypescriptInterface contracts n description properties
         (if truthy required then required else JArr [])
         (if truthy ap then ap else JBool False)))))) = Inr out"
    by blast
  from ebind_Inr[OF 1] obtain d' where 2: "ebind (if truthy d' then Inr d'
            else ebind (default_description ctx) (\<lambda>t. Inr (JStr t))) (\<lambda>description.
     ebind (js_get obj ''additionalProperties'') (\<lambda>ap.
     ebind (js_get obj ''properties'') (\<lambda>properties.
     ebind (js_get obj ''required'') (\<lambda>required.
       createTypescriptInterface contracts n description properties
         (if truthy required then required else JArr [])
         (if truthy ap then ap else JBool False))))) = Inr out"
    by blast
  from ebind_Inr[OF 2] obtain description where
    3: "ebind (js_get obj ''additionalProperties'') (\<lambda>ap.
     ebind (js_get obj ''properties'') (\<lambda>properties.
     ebind (js_get obj ''required'') (\<lambda>required.
       createTypescriptInterface contracts n description properties
         (if truthy required then required else JArr [])
         (if truthy ap then ap else JBool False)))) = Inr out"
    by blast
  from ebind_Inr[OF 3] obtain ap where 4: "ebind (js_get obj ''properties'') (\<lambda>properties.
     ebind (js_get obj ''required'') (\<lambda>required.
       createTypescriptInterface contracts n description properties
         (if truthy required then required else JArr [])
         (if truthy ap then ap else JBool False))) = Inr out"
    by blast
  from 4 have 5: "ebind (js_get obj ''required'') (\<lambda>required.
       createTypescriptInterface contracts n description props
         (if truthy required then required else JArr [])
         (if truthy ap then ap else JBool False)) = Inr out"
    by (simp only: assms(1) ebind_Inr_eq)
  from ebind_Inr[OF 5] obtain required where
    c: "createTypescriptInterface contracts n description props
         (if truthy required then required else JArr [])
         (if truthy ap then ap else JBool False) = Inr out"
    by blast
  from createTypescriptInterface_undescribed[OF assms(2-5), of contracts n description
      "if truthy required then required else JArr []" "if truthy ap then ap else JBool False",
      unfolded c]
  show ?thesis by simp
qed

lemma createTypescriptComm_undescribed:
  assumes "source = backend \<or> source = frontend" and "truthy source"
    and "objectVisitor [] source visited = Inr nodes" and "(ctx, obj) \<in> set nodes"
    and "js_get obj ''properties'' = Inr props" and "entries props = Inr kvs"
    and "(p, schema) \<in> set kvs"
    and "js_get schema ''description'' = Inr d" and "\<not> truthy d"
  shows "\<exists>e. createTypescriptComm y metadata name frontend backend = Inl e"
proof (cases "createTypescriptComm y metadata name frontend backend")
  case (Inl e)
  then show ?thesis by blast
next
  case (Inr out)
  from createTypescriptComm_visits[OF Inr assms(1,2)]
  obtain xs where v: "objectVisitor [] source (typescript_object_callback [backend, frontend])
      = Inr xs"
    by blast
  from objectVisitor_callbacks[OF v assms(3,4)]
  obtain ys where "typescript_object_callback [backend, frontend] ctx obj = Inr ys"
    by auto
  moreover from typescript_object_callback_undescribed[OF assms(5-9)]
  obtain e where "typescript_object_callback [backend, frontend] ctx obj = Inl e"
    by blast
  ultimately show ?thesis by simp
qed

lemma js_get_succeeds_alike: "js_get v k = Inr x \<Longrightarrow> \<exists>x'. js_get v k' = Inr x'"
  by (cases v) auto

lemma python_backend_method_undescribed:
  assumes "js_get method ''description'' = Inr d" and "\<not> truthy d"
  shows "\<exists>mname. python_backend_method contracts name method
           = Inl (NoDescription (toString mname))"
proof -
  from js_get_succeeds_alike[OF assms(1), of "''name''"]
  obtain mname where "js_get method ''name'' = Inr mname" by blast
  then have "python_backend_method contracts name method = Inl (NoDescription (toString mname))"
    unfolding python_backend_method_def
    by (simp only: assms ebind_Inr_eq if_True simp_thms)
  then show ?thesis by blast
qed

lemma createPythonComm_undescribed:
  assumes "truthy backend" and "js_get backend ''methods'' = Inr methods"
    and "iter methods = Inr ms" and "method \<in> set ms"
    and "js_get method ''description'' = Inr d" and "\<not> truthy d"
  shows "\<exists>e. createPythonComm y name frontend backend = Inl e"
proof (cases "createPythonComm y name frontend backend")
  case (Inl e)
  then show ?thesis by blast
next
  case (Inr out)
  from seq_at3[OF Inr[unfolded createPythonComm_def Let_def]]
  obtain xs where "(if truthy backend then
             ebind (js_get backend ''methods'') (\<lambda>methods.
             ebind (iter methods) (\<lambda>ms.
               seq (map (python_backend_method [backend, frontend] name) ms)))
           else Inr []) = Inr xs"
    by blast
  then have "seq (map (python_backend_method [backend, frontend] name) ms) = Inr xs"
    by (simp only: assms(1-3) if_True ebind_Inr_eq)
  from seq_map_Inr[OF this assms(4)]
  obtain ys where "python_backend_method [backend, frontend] name method = Inr ys"
    by blast
  moreover from python_backend_method_undescribed[OF assms(5,6)]
  obtain mname where "python_backend_method [backend, frontend] name method
      = Inl (NoDescription (toString mname))"
    by blast
  ultimately show ?thesis by simp
qed

text \<open>
  C2 (amended). For every Comm: if a field of an object schema node that the object
  visitor finds in a loaded contract lacks a non-empty description, TypeScript
  generation aborts with an error, and since TypeScript is generated before any file is
  written, no output file for that Comm is created or modified. If a method of the
  backend contract lacks a non-empty description, Python generation aborts with an
  error and the processing of the Comm ends with an error.
\<close>

theorem missing_description_aborts:
  assumes "endsWith_json file" and "name = strip_json file"
    and "existsSync env (frontendFile env name) \<or> existsSync env (backendFile env name)"
    and "load_contract env (frontendFile env name) = Inr frontend"
    and "load_contract env (backendFile env name) = Inr backend"
  shows "((source = backend \<or> source = frontend) \<and> truthy source
          \<and> objectVisitor [] source visited = Inr nodes \<and> (ctx, obj) \<in> set nodes
          \<and> js_get obj ''properties'' = Inr props \<and> entries props = Inr kvs
          \<and> (p, schema) \<in> set kvs
          \<and> js_get schema ''description'' = Inr d \<and> \<not> truthy d \<longrightarrow>
        (\<exists>e. createTypescriptComm (year env)
                (readJSON env (path_join (dirname env) (name @ ''.json'')))
                name frontend backend = Inl e
            \<and> process_file env file st = (Some e, st)))
    \<and> (truthy backend \<and> js_get backend ''methods'' = Inr methods
          \<and> iter methods = Inr ms \<and> method \<in> set ms
          \<and> js_get method ''description'' = Inr d' \<and> \<not> truthy d' \<longrightarrow>
        (\<exists>e. createPythonComm (year env) name frontend backend = Inl e)
        \<and> fst (process_file env file st) \<noteq> None)"
proof (intro conjI impI)
  assume a: "(source = backend \<or> source = frontend) \<and> truthy source
          \<and> objectVisitor [] source visited = Inr nodes \<and> (ctx, obj) \<in> set nodes
          \<and> js_get obj ''properties'' = Inr props \<and> entries props = Inr kvs
          \<and> (p, schema) \<in> set kvs
          \<and> js_get schema ''description'' = Inr d \<and> \<not> truthy d"
  from createTypescriptComm_undescribed[of source backend frontend nodes ctx obj props kvs
      p schema d "year env" "readJSON env (path_join (dirname env) (name @ ''.json''))" name] a
  obtain e where e: "createTypescriptComm (year env)
                (readJSON env (path_join (dirname env) (name @ ''.json'')))
                name frontend backend = Inl e"
    by blast
  have "process_file env file st = (Some e, st)"
    unfolding process_file_loaded[OF assms]
    by (rule write_comm_typescript_fails[OF e])
  then show "\<exists>e. createTypescriptComm (year env)
                (readJSON env (path_join (dirname env) (name @ ''.json'')))
                name frontend backend = Inl e
            \<and> process_file env file st = (Some e, st)"
    using e by blast
next
  assume b: "truthy backend \<and> js_get backend ''methods'' = Inr methods
          \<and> iter methods = Inr ms \<and> method \<in> set ms
          \<and> js_get method ''description'' = Inr d' \<and> \<not> truthy d'"
  from createPythonComm_undescribed[of backend methods ms "method" d' "year env" name frontend] b
  show "\<exists>e. createPythonComm (year env) name frontend backend = Inl e"
    by blast
next
  assume b: "truthy backend \<and> js_get backend ''methods'' = Inr methods
          \<and> iter methods = Inr ms \<and> method \<in> set ms
          \<and> js_get method ''description'' = Inr d' \<and> \<not> truthy d'"
  from createPythonComm_undescribed[of backend methods ms "method" d' "year env" name frontend] b
  obtain e where e: "createPythonComm (year env) name frontend backend = Inl e"
    by blast
  show "fst (process_file env file st) \<noteq> None"
  proof
    assume "fst (process_file env file st) = None"
    then have "fst (write_comm env name frontend backend st) = None"
      by (simp only: process_file_loaded[OF assms])
    from write_comm_succeeds[OF this] e show False by auto
  qed
qed

theorem missing_description_aborts_witness:
  "(\<exists>e. createTypescriptComm 2024 (Inr (JObj [])) ''ping'' JNull undescribed_field_backend = Inl e
       \<and> process_file (ping_environment undescribed_field_backend) ''ping.json'' empty_state
           = (Some e, empty_state))
   \<and> (\<exists>e. createPythonComm 2024 ''ping'' JNull summary_only_backend = Inl e)
   \<and> fst (process_file (ping_environment summary_only_backend) ''ping.json'' empty_state) \<noteq> None"
proof -
  note l = ping_environment_loads[of undescribed_field_backend]
  note l' = ping_environment_loads[of summary_only_backend]
  have v: "objectVisitor [] undescribed_field_backend visited
      = Inr [([JStr ''result'', JStr ''methods''], undescribed_reply)]"
    by (simp add: undescribed_field_backend_def undescribed_reply_def undescribed_field_def
        lookup_def visited_def)
  have a: "(undescribed_field_backend = undescribed_field_backend
            \<or> undescribed_field_backend = JNull)
          \<and> truthy undescribed_field_backend
          \<and> objectVisitor [] undescribed_field_backend visited
              = Inr [([JStr ''result'', JStr ''methods''], undescribed_reply)]
          \<and> ([JStr ''result'', JStr ''methods''], undescribed_reply)
              \<in> set [([JStr ''result'', JStr ''methods''], undescribed_reply)]
          \<and> js_get undescribed_reply ''properties''
              = Inr (JObj [(''message'', undescribed_field)])
          \<and> entries (JObj [(''message'', undescribed_field)])
              = Inr [(''message'', undescribed_field)]
          \<and> (''message'', undescribed_field) \<in> set [(''message'', undescribed_field)]
          \<and> js_get undescribed_field ''description'' = Inr JUndef \<and> \<not> truthy JUndef"
    using v by (simp add: undescribed_field_backend_def undescribed_reply_def
        undescribed_field_def lookup_def)
  have b: "truthy summary_only_backend
          \<and> js_get summary_only_backend ''methods'' = Inr (JArr [
               JObj [(''name'', JStr ''do_ping''),
                     (''summary'', JStr ''Ping the backend''),
                     (''params'', JArr []),
                     (''result'', JObj [])]])
          \<and> iter (JArr [
               JObj [(''name'', JStr ''do_ping''),
                     (''summary'', JStr ''Ping the backend''),
                     (''params'', JArr []),
                     (''result'', JObj [])]])
              = Inr [JObj [(''name'', JStr ''do_ping''),
                     (''summary'', JStr ''Ping the backend''),
                     (''params'', JArr []),
                     (''result'', JObj [])]]
          \<and> JObj [(''name'', JStr ''do_ping''),
                     (''summary'', JStr ''Ping the backend''),
                     (''params'', JArr []),
                     (''result'', JObj [])]
              \<in> set [JObj [(''name'', JStr ''do_ping''),
                     (''summary'', JStr ''Ping the backend''),
                     (''params'', JArr []),
                     (''result'', JObj [])]]
          \<and> js_get (JObj [(''name'', JStr ''do_ping''),
                     (''summary'', JStr ''Ping the backend''),
                     (''params'', JArr []),
                     (''result'', JObj [])]) ''description'' = Inr JUndef
          \<and> \<not> truthy JUndef"
    by (simp add: summary_only_backend_def lookup_def)
  note t = missing_description_aborts[OF ping_file l(1-3),
      of undescribed_field_backend "[([JStr ''result'', JStr ''methods''], undescribed_reply)]"
         "[JStr ''result'', JStr ''methods'']" undescribed_reply
         "JObj [(''message'', undescribed_field)]" "[(''message'', undescribed_field)]"
         "''message''" undescribed_field JUndef empty_state]
  note u = missing_description_aborts[OF ping_file l'(1-3),
      of _ _ _ _ _ _ _ _ _ empty_state
         "JArr [JObj [(''name'', JStr ''do_ping''),
                     (''summary'', JStr ''Ping the backend''),
                     (''params'', JArr []),
                     (''result'', JObj [])]]"
         "[JObj [(''name'', JStr ''do_ping''),
                     (''summary'', JStr ''Ping the backend''),
                     (''params'', JArr []),
                     (''result'', JObj [])]]"
         "JObj [(''name'', JStr ''do_ping''),
                     (''summary'', JStr ''Ping the backend''),
                     (''params'', JArr []),
                     (''result'', JObj [])]" JUndef]
  from t[THEN conjunct1, THEN mp, OF a] u[THEN conjunct2, THEN mp, OF b]
  show ?thesis unfolding l(4,5) l'(4) by blast
qed

text \<open>
  C2 as stated fails. The parameter \<open>value\<close> has no description and neither has the
  result object: the three emitters run to their end, the three files are written and
  the Comm is recorded as processed.
\<close>

theorem missing_description_counterexample:
  "(case createCommInterface (ping_environment undescribed_backend) empty_state of
      (r, st) \<Rightarrow>
        r = None \<and> comms st = [''ping'']
        \<and> files st (tsOutputFile (ping_environment undescribed_backend) ''ping'') \<noteq> None
        \<and> files st (rustOutputFile (ping_environment undescribed_backend) ''ping'') \<noteq> None
        \<and> files st (pythonOutputFile (ping_environment undescribed_backend) ''ping'') \<noteq> None)"
  by code_simp

subsection \<open>The enumeration of a parameter\<close>

lemma js_get_member:
  "js_get v k = Inr x \<Longrightarrow> x \<noteq> JUndef \<Longrightarrow>
   \<exists>kvs. v = JObj kvs \<and> lookup kvs k = x \<and> (k, x) \<in> set kvs"
  by (cases v) (auto simp: lookup_def split: option.splits dest: map_of_SomeD)

lemma enumVisitor_item:
  fixes callback :: "jsval list \<Rightarrow> jsval \<Rightarrow> error + 'a list"
  assumes "enumVisitor ctx (JArr xs) callback = Inr out" and "x \<in> set xs"
  shows "\<exists>ys. enumVisitor ctx x callback = Inr ys \<and> sublist ys out"
proof -
  from assms(1) have "seq (map (\<lambda>item. enumVisitor ctx item callback) xs) = Inr out"
    by simp
  from seq_map_sublist[OF this assms(2)] show ?thesis .
qed

lemma enumVisitor_member:
  fixes callback :: "jsval list \<Rightarrow> jsval \<Rightarrow> error + 'a list"
  assumes "enumVisitor ctx (JObj kvs) callback = Inr out"
    and "\<not> truthy (lookup kvs ''enum'')" and "(k, v) \<in> set kvs"
  shows "\<exists>c ys. enumVisitor c v callback = Inr ys \<and> sublist ys out
           \<and> length c \<le> Suc (length ctx)
           \<and> (truthy (lookup kvs ''name'') \<longrightarrow> c = lookup kvs ''name'' # ctx)"
proof -
  let ?f = "\<lambda>(key, v).
             if truthy (lookup kvs ''name'')
             then enumVisitor (lookup kvs ''name'' # ctx) v callback
             else if key = ''properties'' \<or> key = ''params''
             then enumVisitor ctx v callback
             else enumVisitor (JStr key # ctx) v callback"
  from assms(1,2) have "seq (map ?f kvs) = Inr out" by simp
  from seq_map_sublist[OF this assms(3)] obtain ys where f: "?f (k, v) = Inr ys"
    and sub: "sublist ys out"
    by blast
  show ?thesis
  proof (cases "truthy (lookup kvs ''name'')")
    case True
    then have "enumVisitor (lookup kvs ''name'' # ctx) v callback = Inr ys" using f by simp
    then show ?thesis using sub True by auto
  next
    case nn: False
    show ?thesis
    proof (cases "k = ''properties'' \<or> k = ''params''")
      case True
      then have "enumVisitor ctx v callback = Inr ys" using f nn by auto
      then show ?thesis using sub nn by (intro exI[of _ ctx] exI[of _ ys]) simp
    next
      case False
      then have "enumVisitor (JStr k # ctx) v callback = Inr ys" using f nn by auto
      then show ?thesis using sub nn by (intro exI[of _ "JStr k # ctx"] exI[of _ ys]) simp
    qed
  qed
qed

lemma enumVisitor_enum:
  fixes callback :: "jsval list \<Rightarrow> jsval \<Rightarrow> error + 'a list"
  shows "truthy (lookup kvs ''enum'') \<Longrightarrow>
    enumVisitor ctx (JObj kvs) callback = callback ctx (lookup kvs ''enum'')"
  by simp

text \<open>
  The enumeration of a parameter is reported to the callback in the context of the
  parameter and of its method, when the callback accepts no context of fewer than two
  entries.
\<close>

lemma enum_of_parameter:
  fixes callback :: "jsval list \<Rightarrow> jsval \<Rightarrow> error + 'a list"
  assumes run: "enumVisitor [] source callback = Inr out"
    and long: "\<forall>ctx vals xs. callback ctx vals = Inr xs \<longrightarrow> 2 \<le> length ctx"
    and ms: "js_get source ''methods'' = Inr (JArr ms)" and m: "m \<in> set ms"
    and mname: "js_get m ''name'' = Inr (JStr mname)" and mne: "mname \<noteq> []"
    and ps: "js_get m ''params'' = Inr (JArr ps)" and p: "p \<in> set ps"
    and pname: "js_get p ''name'' = Inr (JStr pname)" and pne: "pname \<noteq> []"
    and penum: "js_get p ''enum'' = Inr e" and pe: "\<not> truthy e"
    and schema: "js_get p ''schema'' = Inr schema"
    and enum: "js_get schema ''enum'' = Inr (JArr vs)"
  shows "\<exists>rest xs. callback (JStr pname # JStr mname # rest) (JArr vs) = Inr xs
           \<and> sublist xs out"
proof -
  from js_get_member[OF ms] obtain kvs where source: "source = JObj kvs"
    and kms: "(''methods'', JArr ms) \<in> set kvs"
    by auto
  have ne0: "\<not> truthy (lookup kvs ''enum'')"
  proof
    assume "truthy (lookup kvs ''enum'')"
    from run[unfolded source enumVisitor_enum[OF this]] long show False by fastforce
  qed
  from enumVisitor_member[OF run[unfolded source] ne0 kms] obtain c0 ys0 where
    r0: "enumVisitor c0 (JArr ms) callback = Inr ys0" and s0: "sublist ys0 out"
    and l0: "length c0 \<le> Suc 0"
    by auto
  from enumVisitor_item[OF r0 m] obtain ys1 where
    r1: "enumVisitor c0 m callback = Inr ys1" and s1: "sublist ys1 ys0"
    by blast
  from js_get_member[OF ps] obtain mkvs where mobj: "m = JObj mkvs"
    and kps: "(''params'', JArr ps) \<in> set mkvs"
    by auto
  have mn: "lookup mkvs ''name'' = JStr mname" using mname mobj by simp
  have ne1: "\<not> truthy (lookup mkvs ''enum'')"
  proof
    assume "truthy (lookup mkvs ''enum'')"
    from r1[unfolded mobj enumVisitor_enum[OF this]] long l0 show False by fastforce
  qed
  from enumVisitor_member[OF r1[unfolded mobj] ne1 kps] mn mne obtain ys2 where
    r2: "enumVisitor (JStr mname # c0) (JArr ps) callback = Inr ys2" and s2: "sublist ys2 ys1"
    by auto
  from enumVisitor_item[OF r2 p] obtain ys3 where
    r3: "enumVisitor (JStr mname # c0) p callback = Inr ys3" and s3: "sublist ys3 ys2"
    by blast
  from js_get_member[OF enum] obtain skvs where sobj: "schema = JObj skvs"
    and se: "lookup skvs ''enum'' = JArr vs"
    by auto
  from js_get_member[OF schema] sobj obtain pkvs where pobj: "p = JObj pkvs"
    and ksc: "(''schema'', JObj skvs) \<in> set pkvs"
    by auto
  have pn: "lookup pkvs ''name'' = JStr pname" using pname pobj by simp
  have ne2: "\<not> truthy (lookup pkvs ''enum'')" using penum pe pobj by simp
  from enumVisitor_member[OF r3[unfolded pobj] ne2 ksc] pn pne obtain ys4 where
    r4: "enumVisitor (JStr pname # JStr mname # c0) (JObj skvs) callback = Inr ys4"
    and s4: "sublist ys4 ys3"
    by auto
  have t: "truthy (lookup skvs ''enum'')" using se by simp
  have c: "callback (JStr pname # JStr mname # c0) (JArr vs) = Inr ys4"
    using r4[unfolded enumVisitor_enum[OF t]] se by simp
  have "sublist ys4 out"
    by (rule sublist_trans[OF s4 sublist_trans[OF s3 sublist_trans[OF s2
          sublist_trans[OF s1 s0]]]])
  with c show ?thesis by blast
qed

lemma enum_context_long: "toPascal (context_at ctx 1) = Inr a \<Longrightarrow> 2 \<le> length ctx"
  by (cases "1 < length ctx") (auto simp: context_at_def)

lemma typescript_enum_context:
  "\<forall>ctx vals xs. typescript_enum_callback ctx vals = Inr xs \<longrightarrow> 2 \<le> length ctx"
proof (intro allI impI)
  fix ctx vals xs
  assume "typescript_enum_callback ctx vals = Inr xs"
  from typescript_enum_declares[OF this] obtain a where "toPascal (context_at ctx 1) = Inr a"
    by blast
  then show "2 \<le> length ctx" by (rule enum_context_long)
qed

lemma rust_enum_context:
  "\<forall>ctx vals xs. rust_enum_callback ctx vals = Inr xs \<longrightarrow> 2 \<le> length ctx"
proof (intro allI impI)
  fix ctx vals xs
  assume "rust_enum_callback ctx vals = Inr xs"
  from rust_enum_declares[OF this] obtain a where "toPascal (context_at ctx 1) = Inr a"
    by blast
  then show "2 \<le> length ctx" by (rule enum_context_long)
qed

lemma python_enum_context:
  "\<forall>ctx vals xs. python_enum_callback ctx vals = Inr xs \<longrightarrow> 2 \<le> length ctx"
proof (intro allI impI)
  fix ctx vals xs
  assume "python_enum_callback ctx vals = Inr xs"
  from python_enum_declares[OF this] obtain a where "toPascal (context_at ctx 1) = Inr a"
    by blast
  then show "2 \<le> length ctx" by (rule enum_context_long)
qed

lemma context_at_head:
  "context_at (x # y # rest) 0 = x"
  "context_at (x # y # rest) 1 = y"
  by (simp_all add: context_at_def)

lemma enum_callbacks_context:
  "typescript_enum_callback (x # y # rest) vals = typescript_enum_callback [x, y] vals"
  "rust_enum_callback (x # y # rest) vals = rust_enum_callback [x, y] vals"
  "python_enum_callback (x # y # rest) vals = python_enum_callback [x, y] vals"
  unfolding typescript_enum_callback_def rust_enum_callback_def python_enum_callback_def
    enum_comment_def default_description_def context_at_head
  by (rule refl)+

lemma set_mode_enum_text:
  "concat (projr (typescript_enum_callback [JStr ''mode'', JStr ''set_mode'']
                    (JArr [JStr ''a'', JStr ''b''])))
     = (''/**'' @ nl @ '' * Possible values for Mode in SetMode'' @ nl @ '' */'' @ nl)
       @ typescript_set_mode_enum @ nl"
  "concat (projr (rust_enum_callback [JStr ''mode'', JStr ''set_mode'']
                    (JArr [JStr ''a'', JStr ''b''])))
     = (''/// Possible values for Mode in SetMode'' @ nl @ rust_derive)
       @ rust_set_mode_enum @ nl"
  "concat (projr (python_enum_callback [JStr ''mode'', JStr ''set_mode'']
                    (JArr [JStr ''a'', JStr ''b''])))
     = (''@enum.unique'' @ nl) @ python_set_mode_enum @ []"
  by code_simp+

lemma typescript_set_mode_declared:
  assumes "typescript_enum_callback (JStr ''mode'' # JStr ''set_mode'' # rest)
     (JArr [JStr ''a'', JStr ''b'']) = Inr xs"
  shows "sublist typescript_set_mode_enum (concat xs)"
proof -
  from assms[unfolded enum_callbacks_context[of _ _ rest]]
  have "xs = projr (typescript_enum_callback [JStr ''mode'', JStr ''set_mode'']
                      (JArr [JStr ''a'', JStr ''b'']))"
    by simp
  then show ?thesis
    by (simp only: set_mode_enum_text sublist_appendI)
qed

lemma rust_set_mode_declared:
  assumes "rust_enum_callback (JStr ''mode'' # JStr ''set_mode'' # rest)
     (JArr [JStr ''a'', JStr ''b'']) = Inr xs"
  shows "sublist rust_set_mode_enum (concat xs)"
proof -
  from assms[unfolded enum_callbacks_context[of _ _ rest]]
  have "xs = projr (rust_enum_callback [JStr ''mode'', JStr ''set_mode'']
                      (JArr [JStr ''a'', JStr ''b'']))"
    by simp
  then show ?thesis
    by (simp only: set_mode_enum_text sublist_appendI)
qed

lemma python_set_mode_declared:
  assumes "python_enum_callback (JStr ''mode'' # JStr ''set_mode'' # rest)
     (JArr [JStr ''a'', JStr ''b'']) = Inr xs"
  shows "sublist python_set_mode_enum (concat xs)"
proof -
  from assms[unfolded enum_callbacks_context[of _ _ rest]]
  have "xs = projr (python_enum_callback [JStr ''mode'', JStr ''set_mode'']
                      (JArr [JStr ''a'', JStr ''b'']))"
    by simp
  then show ?thesis
    by (simp only: set_mode_enum_text sublist_appendI)
qed

text \<open>
  C6 (amended). In a loaded contract, the schema of the parameter \<open>mode\<close> of the method
  \<open>set_mode\<close> has the enum values \<open>a\<close> and \<open>b\<close>, and the parameter has no \<open>enum\<close> member
  of its own. Then the text of every emitter that runs to its end holds the declaration
  of an enumeration named \<open>SetModeMode\<close> with exactly the two members \<open>A\<close> and \<open>B\<close>, in
  this order, each with its wire string \<open>a\<close>, \<open>b\<close> as the serialized value.
\<close>

theorem enum_emission_scenario:
  assumes "source = backend \<or> source = frontend"
    and "js_get source ''methods'' = Inr (JArr ms)" and "m \<in> set ms"
    and "js_get m ''name'' = Inr (JStr ''set_mode'')"
    and "js_get m ''params'' = Inr (JArr ps)" and "p \<in> set ps"
    and "js_get p ''name'' = Inr (JStr ''mode'')"
    and "js_get p ''enum'' = Inr e" and "\<not> truthy e"
    and "js_get p ''schema'' = Inr schema"
    and "js_get schema ''enum'' = Inr (JArr [JStr ''a'', JStr ''b''])"
  shows "(createTypescriptComm y metadata name frontend backend = Inr ts \<longrightarrow>
            sublist typescript_set_mode_enum (concat ts))
    \<and> (createRustComm y name frontend backend = Inr rs \<longrightarrow>
            sublist rust_set_mode_enum (concat rs))
    \<and> (createPythonComm y name frontend backend = Inr py \<longrightarrow>
            sublist python_set_mode_enum (concat py))"
proof (intro conjI impI)
  have tr: "truthy source" using assms(2) by (cases source) auto
  have ne: "''set_mode'' \<noteq> []" "''mode'' \<noteq> []" by simp_all
  {
    assume "createTypescriptComm y metadata name frontend backend = Inr ts"
    from createTypescriptComm_visits[OF this assms(1) tr] obtain ys where
      v: "enumVisitor [] source typescript_enum_callback = Inr ys" and s: "sublist ys ts"
      by blast
    from enum_of_parameter[OF v typescript_enum_context assms(2-4) ne(1) assms(5-7) ne(2)
        assms(8-11)]
    obtain rest xs where c: "typescript_enum_callback (JStr ''mode'' # JStr ''set_mode'' # rest)
        (JArr [JStr ''a'', JStr ''b'']) = Inr xs"
      and sx: "sublist xs ys"
      by auto
    show "sublist typescript_set_mode_enum (concat ts)"
      by (rule sublist_trans[OF typescript_set_mode_declared[OF c]
            sublist_concat[OF sublist_trans[OF sx s]]])
  }
  {
    assume "createRustComm y name frontend backend = Inr rs"
    from createRustComm_visits[OF this assms(1) tr] obtain ys where
      v: "enumVisitor [] source rust_enum_callback = Inr ys" and s: "sublist ys rs"
      by blast
    from enum_of_parameter[OF v rust_enum_context assms(2-4) ne(1) assms(5-7) ne(2)
        assms(8-11)]
    obtain rest xs where c: "rust_enum_callback (JStr ''mode'' # JStr ''set_mode'' # rest)
        (JArr [JStr ''a'', JStr ''b'']) = Inr xs"
      and sx: "sublist xs ys"
      by auto
    show "sublist rust_set_mode_enum (concat rs)"
      by (rule sublist_trans[OF rust_set_mode_declared[OF c]
            sublist_concat[OF sublist_trans[OF sx s]]])
  }
  {
    assume "createPythonComm y name frontend backend = Inr py"
    from createPythonComm_visits[OF this assms(1) tr] obtain ys where
      v: "enumVisitor [] source python_enum_callback = Inr ys" and s: "sublist ys py"
      by blast
    from enum_of_parameter[OF v python_enum_context assms(2-4) ne(1) assms(5-7) ne(2)
        assms(8-11)]
    obtain rest xs where c: "python_enum_callback (JStr ''mode'' # JStr ''set_mode'' # rest)
        (JArr [JStr ''a'', JStr ''b'']) = Inr xs"
      and sx: "sublist xs ys"
      by auto
    show "sublist python_set_mode_enum (concat py)"
      by (rule sublist_trans[OF python_set_mode_declared[OF c]
            sublist_concat[OF sublist_trans[OF sx s]]])
  }
qed

lemma set_mode_shape:
  "js_get set_mode_contract ''methods'' = Inr (JArr [
        JObj [(''name'', JStr ''set_mode''),
              (''summary'', JStr ''Set the mode''),
              (''description'', JStr ''Set the mode of operation''),
              (''params'', JArr [
                 JObj [(''name'', JStr ''mode''),
                       (''description'', JStr ''The mode''),
                       (''schema'', JObj [(''type'', JStr ''string''),
                                         (''enum'', JArr [JStr ''a'', JStr ''b''])])]]),
              (''result'', JObj [(''schema'', example_object)])]])"
  by (simp add: set_mode_contract_def lookup_def)

theorem enum_emission_scenario_witness:
  "sublist typescript_set_mode_enum
     (concat (projr (createTypescriptComm 2024 (Inr (JObj [])) ''mode'' JNull set_mode_contract)))
   \<and> sublist rust_set_mode_enum
     (concat (projr (createRustComm 2024 ''mode'' JNull set_mode_contract)))
   \<and> sublist python_set_mode_enum
     (concat (projr (createPythonComm 2024 ''mode'' JNull set_mode_contract)))"
proof -
  let ?p = "JObj [(''name'', JStr ''mode''),
                  (''description'', JStr ''The mode''),
                  (''schema'', JObj [(''type'', JStr ''string''),
                                    (''enum'', JArr [JStr ''a'', JStr ''b''])])]"
  let ?m = "JObj [(''name'', JStr ''set_mode''),
              (''summary'', JStr ''Set the mode''),
              (''description'', JStr ''Set the mode of operation''),
              (''params'', JArr [?p]),
              (''result'', JObj [(''schema'', example_object)])]"
  have 1: "?m \<in> set [?m]" by simp
  have 2: "js_get ?m ''name'' = Inr (JStr ''set_mode'')" by (simp add: lookup_def)
  have 3: "js_get ?m ''params'' = Inr (JArr [?p])" by (simp add: lookup_def)
  have 4: "?p \<in> set [?p]" by simp
  have 5: "js_get ?p ''name'' = Inr (JStr ''mode'')" by (simp add: lookup_def)
  have 6: "js_get ?p ''enum'' = Inr JUndef" by (simp add: lookup_def)
  have 7: "\<not> truthy JUndef" by simp
  have 8: "js_get ?p ''schema'' = Inr (JObj [(''type'', JStr ''string''),
                                    (''enum'', JArr [JStr ''a'', JStr ''b''])])"
    by (simp add: lookup_def)
  have 9: "js_get (JObj [(''type'', JStr ''string''),
                         (''enum'', JArr [JStr ''a'', JStr ''b''])]) ''enum''
      = Inr (JArr [JStr ''a'', JStr ''b''])"
    by (simp add: lookup_def)
  note T = enum_emission_scenario[OF disjI1[OF refl] set_mode_shape 1 2 3 4 5 6 7 8 9,
      where frontend = JNull and y = 2024 and metadata = "Inr (JObj [])" and name = "''mode''"]
  show ?thesis
    by (intro conjI)
       (rule T[THEN conjunct1, THEN mp, OF set_mode_typescript_runs],
        rule T[THEN conjunct2, THEN conjunct1, THEN mp, OF set_mode_rust_runs],
        rule T[THEN conjunct2, THEN conjunct2, THEN mp, OF set_mode_python_runs])
qed

lemma bare_enum_typescript:
  "createTypescriptComm 2024 (Inr (JObj [])) ''mode'' JNull bare_enum_backend
     = Inl (UnknownType ''undefined'')"
  by code_simp

lemma param_enum_rust:
  "case createRustComm 2024 ''mode'' JNull param_enum_backend of
     Inl e \<Rightarrow> False
   | Inr out \<Rightarrow> \<not> sublist ''pub enum SetModeMode'' (concat out)
       \<and> sublist ''pub enum MethodsSetMode'' (concat out)"
  by code_simp

text \<open>
  C6 as stated fails. With the schema of the parameter reduced to \<open>enum: [a, b]\<close>, the
  TypeScript emitter throws \<open>Unknown type: undefined\<close> and produces nothing. And when
  the parameter carries an \<open>enum\<close> member of its own, the visitor reports that one and
  does not descend to the schema: the Rust emitter runs to its end and declares
  \<open>MethodsSetMode\<close> and no \<open>SetModeMode\<close>.
\<close>

theorem enum_emission_counterexample:
  "createTypescriptComm 2024 (Inr (JObj [])) ''mode'' JNull bare_enum_backend
     = Inl (UnknownType ''undefined'')
   \<and> (case createRustComm 2024 ''mode'' JNull param_enum_backend of
         Inl e \<Rightarrow> False
       | Inr out \<Rightarrow> \<not> sublist ''pub enum SetModeMode'' (concat out)
           \<and> sublist ''pub enum MethodsSetMode'' (concat out))"
  by (rule conjI[OF bare_enum_typescript param_enum_rust])

end
